theory Spec2Isabelle
  imports Main "HOL-Library.Word" "HOL-Library.AList"
begin

unbundle bit_operations_syntax

section \<open>Python strings\<close>

text \<open>
  The scripts work on Python \<open>str\<close> values. They are modelled as \<open>string\<close>, one
  \<open>char\<close> per code point, for the code points below 256. The string methods the
  scripts call are written out below with the behaviour CPython gives them on such
  strings.
\<close>

text \<open>\<open>str.isspace\<close> on one character: the code points 9-13, 28-32, 133 and 160.\<close>

definition py_isspace :: "char \<Rightarrow> bool" where
  "py_isspace c =
     (let n = (of_char c :: nat)
      in (9 \<le> n \<and> n \<le> 13) \<or> (28 \<le> n \<and> n \<le> 32) \<or> n = 133 \<or> n = 160)"

text \<open>\<open>s.startswith(p)\<close>.\<close>

definition startswith :: "string \<Rightarrow> string \<Rightarrow> bool" where
  "startswith p s = (take (length p) s = p)"

text \<open>\<open>sub in s\<close> for strings: \<open>sub\<close> occurs in \<open>s\<close> as a contiguous run.\<close>

fun py_in :: "string \<Rightarrow> string \<Rightarrow> bool" where
  "py_in sub [] = (sub = [])"
| "py_in sub (c # cs) = (startswith sub (c # cs) \<or> py_in sub cs)"

text \<open>
  \<open>s.split()\<close>: the maximal runs of non-whitespace characters, in order.
  \<open>split_ws cur s\<close> scans \<open>s\<close> with the run read so far in \<open>cur\<close>.
\<close>

fun split_ws :: "string \<Rightarrow> string \<Rightarrow> string list" where
  "split_ws cur [] = (if cur = [] then [] else [cur])"
| "split_ws cur (c # cs) =
     (if py_isspace c then (if cur = [] then split_ws [] cs else cur # split_ws [] cs)
      else split_ws (cur @ [c]) cs)"

definition py_split :: "string \<Rightarrow> string list" where
  "py_split s = split_ws [] s"

text \<open>
  \<open>s.split(sep)\<close> for a non-empty separator: the pieces between the occurrences of
  \<open>sep\<close>, found from left to right without overlap. (Python raises \<open>ValueError\<close> on an
  empty separator; the scripts only split on a literal, and the scan below treats an
  empty separator as one that never occurs.)
\<close>

fun split_sep :: "string \<Rightarrow> string \<Rightarrow> string \<Rightarrow> string list" where
  "split_sep sep cur [] = [cur]"
| "split_sep sep cur (c # cs) =
     (if sep \<noteq> [] \<and> startswith sep (c # cs)
      then cur # split_sep sep [] (drop (length sep - 1) cs)
      else split_sep sep (cur @ [c]) cs)"

definition py_split_on :: "string \<Rightarrow> string \<Rightarrow> string list" where
  "py_split_on sep s = split_sep sep [] s"

text \<open>\<open>s.strip()\<close>: leading and trailing whitespace removed.\<close>

definition py_strip :: "string \<Rightarrow> string" where
  "py_strip s = rev (dropWhile py_isspace (rev (dropWhile py_isspace s)))"

text \<open>
  \<open>s.lower()\<close>, character by character: \<open>A\<close>-\<open>Z\<close> and the upper-case letters of
  the range 192-222 (all but the multiplication sign 215) move up by 32.
\<close>

definition lower_char :: "char \<Rightarrow> char" where
  "lower_char c =
     (let n = (of_char c :: nat)
      in if (65 \<le> n \<and> n \<le> 90) \<or> (192 \<le> n \<and> n \<le> 222 \<and> n \<noteq> 215)
         then char_of (n + 32) else c)"

definition py_lower :: "string \<Rightarrow> string" where
  "py_lower s = map lower_char s"

text \<open>\<open>str(n)\<close> for a non-negative integer: its decimal digits.\<close>

fun str_nat :: "nat \<Rightarrow> string" where
  "str_nat n =
     (if n < 10 then [char_of (48 + n)]
      else str_nat (n div 10) @ [char_of (48 + n mod 10)])"

declare str_nat.simps [simp del]

section \<open>Paths\<close>

text \<open>
  A \<open>pathlib.Path\<close> is modelled by its string. \<open>path_name\<close> is \<open>Path.name\<close>, the
  final component: what follows the last \<open>/\<close>. \<open>path_stem\<close> is \<open>Path.stem\<close>: the
  name without its last suffix, where a suffix starts at the last dot of the name
  unless that dot is the first or the last character of the name.
\<close>

definition path_name :: "string \<Rightarrow> string" where
  "path_name p = rev (takeWhile (\<lambda>c. c \<noteq> CHR ''/'') (rev p))"

definition path_stem :: "string \<Rightarrow> string" where
  "path_stem p =
     (let name = path_name p;
          suffix_rev = takeWhile (\<lambda>c. c \<noteq> CHR ''.'') (rev name);
          i = length name - length suffix_rev - 1
      in if CHR ''.'' \<in> set name \<and> 0 < i \<and> suffix_rev \<noteq> [] then take i name else name)"

section \<open>The identity deriver\<close>

text \<open>
  \<open>hashlib.md5(combo_prompt.encode())\<close> is library code: the digest function is a
  parameter \<open>md5\<close> of the model, giving the 128-bit digest of the encoded string.
  \<open>hexdigest\<close> writes a digest as 32 lower-case hexadecimal digits, the most
  significant nibble first.
\<close>

type_synonym digest = "128 word"

definition hex_digit :: "nat \<Rightarrow> char" where
  "hex_digit n = ''0123456789abcdef'' ! (n mod 16)"

definition hexdigest :: "digest \<Rightarrow> string" where
  "hexdigest w = map (\<lambda>i. hex_digit (unat (drop_bit (4 * (31 - i)) w AND 15))) [0..<32]"

text \<open>
  \<^verbatim>\<open>
  def create_job_identifier(image_path: Path, combo_prompt: str) -> str:
      image_name = image_path.name
      combo_hash = hashlib.md5(combo_prompt.encode()).hexdigest()[:8]
      return f"{image_name}:{combo_hash}"
  \<close>
\<close>

definition create_job_identifier :: "(string \<Rightarrow> digest) \<Rightarrow> string \<Rightarrow> string \<Rightarrow> string" where
  "create_job_identifier md5 image_path combo_prompt =
     (let image_name = path_name image_path;
          combo_hash = take 8 (hexdigest (md5 combo_prompt))
      in image_name @ '':'' @ combo_hash)"



section \<open>Python values and the remote job store\<close>

text \<open>
  The SDK hands the scripts JSON objects as Python dictionaries. A dictionary whose
  values are scalars is an association list from keys to \<open>atom\<close>s; \<open>d.get(k)\<close> is
  \<open>dget\<close> (\<open>None\<close> for an absent key), \<open>d.get(k, default)\<close> is \<open>dget_default\<close> and
  \<open>d[k]\<close> is \<open>dsub\<close>, which raises \<open>KeyError\<close>.
\<close>

datatype error = Error string

datatype atom = ANone | ABool bool | AInt int | AStr string

type_synonym pydict = "(string \<times> atom) list"

definition dget :: "pydict \<Rightarrow> string \<Rightarrow> atom" where
  "dget d k = (case map_of d k of None \<Rightarrow> ANone | Some v \<Rightarrow> v)"

definition dget_default :: "pydict \<Rightarrow> string \<Rightarrow> atom \<Rightarrow> atom" where
  "dget_default d k dflt = (case map_of d k of None \<Rightarrow> dflt | Some v \<Rightarrow> v)"

definition dsub :: "pydict \<Rightarrow> string \<Rightarrow> error + atom" where
  "dsub d k = (case map_of d k of None \<Rightarrow> Inl (Error (''KeyError: '' @ k)) | Some v \<Rightarrow> Inr v)"

text \<open>Truth value of a scalar, as \<open>if v:\<close> tests it.\<close>

fun truthy :: "atom \<Rightarrow> bool" where
  "truthy ANone = False"
| "truthy (ABool b) = b"
| "truthy (AInt i) = (i \<noteq> 0)"
| "truthy (AStr s) = (s \<noteq> [])"

text \<open>\<open>str(v)\<close>, which is what an f-string writes for \<open>{v}\<close>.\<close>

fun py_str :: "atom \<Rightarrow> string" where
  "py_str ANone = ''None''"
| "py_str (ABool b) = (if b then ''True'' else ''False'')"
| "py_str (AInt i) = (if i < 0 then ''-'' @ str_nat (nat (- i)) else str_nat (nat i))"
| "py_str (AStr s) = s"

text \<open>\<open>a or b\<close>.\<close>

definition py_or :: "atom \<Rightarrow> atom \<Rightarrow> atom" where
  "py_or a b = (if truthy a then a else b)"

text \<open>
  An entry of a playlist: its \<open>type\<close>, its \<open>id\<close> and, under \<open>dreamItem\<close>, the
  dictionary of the dream it refers to (\<open>None\<close> when the key is absent or null).
\<close>

record playlist_item =
  i_type :: atom
  i_id :: atom
  i_dreamItem :: "pydict option"

text \<open>
  An element of the \<open>items\<close> array of a playlist, as the JSON of the response gives
  it: an object, or a value of another kind (\<open>null\<close>, a number, a string), on which
  \<open>item.get\<close> raises \<open>AttributeError\<close>.
\<close>

datatype listed_item = Object playlist_item | NonObject atom

record playlist =
  p_fields :: pydict
  p_items :: "listed_item list"

record items_page =
  pg_items :: "playlist_item list"
  pg_totalCount :: nat

record create_request =
  req_name :: string
  req_description :: string
  req_prompt :: pydict

text \<open>
  The SDK client is an external collaborator. It is a record of the operations the
  scripts call, each a transition of the state \<open>'r\<close> of the remote store (and of the
  network in front of it) that gives its result, or the exception it raises, and the
  time the call took in milliseconds.
\<close>

record 'r client =
  get_playlist :: "atom \<Rightarrow> bool \<Rightarrow> 'r \<Rightarrow> (error + playlist) \<times> 'r \<times> nat"
  get_playlist_items :: "atom \<Rightarrow> nat \<Rightarrow> nat \<Rightarrow> 'r \<Rightarrow> (error + items_page) \<times> 'r \<times> nat"
  get_dream :: "atom \<Rightarrow> 'r \<Rightarrow> (error + pydict option) \<times> 'r \<times> nat"
  update_dream :: "atom \<Rightarrow> pydict \<Rightarrow> 'r \<Rightarrow> (error + unit) \<times> 'r \<times> nat"
  upload_file :: "string \<Rightarrow> 'r \<Rightarrow> (error + pydict) \<times> 'r \<times> nat"
  create_dream_from_prompt :: "create_request \<Rightarrow> 'r \<Rightarrow> (error + pydict) \<times> 'r \<times> nat"
  add_item_to_playlist :: "atom \<Rightarrow> atom \<Rightarrow> 'r \<Rightarrow> (error + unit) \<times> 'r \<times> nat"
  download_image :: "atom \<Rightarrow> string \<Rightarrow> 'r \<Rightarrow> bool \<times> 'r \<times> nat"

text \<open>
  What a run does to the outside is kept in a trace: every call of the client with its
  arguments and its outcome, every \<open>time.sleep\<close>, and the messages the claims speak of.
\<close>

datatype event =
    EvGetPlaylist atom bool "error + playlist"
  | EvGetPlaylistItems atom nat nat "error + items_page"
  | EvGetDream atom "error + pydict option"
  | EvUpdateDream atom pydict "error + unit"
  | EvUploadFile string "error + pydict"
  | EvCreateDream create_request "error + pydict"
  | EvAddItem atom atom "error + unit"
  | EvDownload atom string bool
  | EvSleep nat
  | EvPrint string

text \<open>
  The world of a run: the wall clock \<open>time.time()\<close> reads (in milliseconds), the
  trace, and the state of the remote store.
\<close>

record 'r world =
  clock :: nat
  trace :: "event list"
  remote :: 'r

definition call :: "('a \<Rightarrow> event) \<Rightarrow> ('r \<Rightarrow> 'a \<times> 'r \<times> nat) \<Rightarrow> 'r world \<Rightarrow> 'a \<times> 'r world" where
  "call ev op w =
     (case op (remote w) of
        (res, r', d) \<Rightarrow> (res, \<lparr>clock = clock w + d, trace = trace w @ [ev res], remote = r'\<rparr>))"

text \<open>\<open>time.sleep(ms / 1000)\<close>: the clock moves on by the time slept.\<close>

definition sleep :: "nat \<Rightarrow> 'r world \<Rightarrow> 'r world" where
  "sleep ms w = w\<lparr>clock := clock w + ms, trace := trace w @ [EvSleep ms]\<rparr>"

definition print :: "string \<Rightarrow> 'r world \<Rightarrow> 'r world" where
  "print msg w = w\<lparr>trace := trace w @ [EvPrint msg]\<rparr>"

definition c_get_playlist :: "'r client \<Rightarrow> atom \<Rightarrow> bool \<Rightarrow> 'r world \<Rightarrow> (error + playlist) \<times> 'r world" where
  "c_get_playlist c u auto_populate = call (EvGetPlaylist u auto_populate) (get_playlist c u auto_populate)"

definition c_get_playlist_items :: "'r client \<Rightarrow> atom \<Rightarrow> nat \<Rightarrow> nat \<Rightarrow> 'r world \<Rightarrow> (error + items_page) \<times> 'r world" where
  "c_get_playlist_items c u tk sk = call (EvGetPlaylistItems u tk sk) (get_playlist_items c u tk sk)"

definition c_get_dream :: "'r client \<Rightarrow> atom \<Rightarrow> 'r world \<Rightarrow> (error + pydict option) \<times> 'r world" where
  "c_get_dream c u = call (EvGetDream u) (get_dream c u)"

definition c_update_dream :: "'r client \<Rightarrow> atom \<Rightarrow> pydict \<Rightarrow> 'r world \<Rightarrow> (error + unit) \<times> 'r world" where
  "c_update_dream c u upd = call (EvUpdateDream u upd) (update_dream c u upd)"

definition c_upload_file :: "'r client \<Rightarrow> string \<Rightarrow> 'r world \<Rightarrow> (error + pydict) \<times> 'r world" where
  "c_upload_file c path = call (EvUploadFile path) (upload_file c path)"

definition c_create_dream_from_prompt :: "'r client \<Rightarrow> create_request \<Rightarrow> 'r world \<Rightarrow> (error + pydict) \<times> 'r world" where
  "c_create_dream_from_prompt c req = call (EvCreateDream req) (create_dream_from_prompt c req)"

definition c_add_item_to_playlist :: "'r client \<Rightarrow> atom \<Rightarrow> atom \<Rightarrow> 'r world \<Rightarrow> (error + unit) \<times> 'r world" where
  "c_add_item_to_playlist c pl u = call (EvAddItem pl u) (add_item_to_playlist c pl u)"

definition c_download_image :: "'r client \<Rightarrow> atom \<Rightarrow> string \<Rightarrow> 'r world \<Rightarrow> bool \<times> 'r world" where
  "c_download_image c url path = call (EvDownload url path) (download_image c url path)"

section \<open>The wan-i2v batch: dedup index\<close>

text \<open>
  \<^verbatim>\<open>
  for item in items:
      if item.get("type") == "dream" and item.get("dreamItem"):
          dream = item["dreamItem"]
          description = dream.get("description", "")
          name = dream.get("name", "")
          text_to_check = f"{description} {name}"
          if "BATCH_IDENTIFIER:" in text_to_check:
              parts = text_to_check.split("BATCH_IDENTIFIER:")
              if len(parts) > 1:
                  identifier = parts[1].split()[0] if parts[1].split() else ""
                  if identifier:
                      existing_identifiers.add(identifier)
  \<close>
  \<open>text_identifier\<close> is what the loop body does with \<open>text_to_check\<close>,
  \<open>item_identifier\<close> the identifier one item adds to the index, if it adds one.
\<close>

definition batch_marker :: string where
  "batch_marker = ''BATCH_IDENTIFIER:''"

definition text_identifier :: "string \<Rightarrow> string option" where
  "text_identifier text_to_check =
     (if py_in batch_marker text_to_check
      then (let parts = py_split_on batch_marker text_to_check
            in if length parts > 1
               then (let identifier = (case py_split (parts ! 1) of [] \<Rightarrow> [] | t # ts \<Rightarrow> t)
                     in if identifier \<noteq> [] then Some identifier else None)
               else None)
      else None)"

definition item_identifier :: "playlist_item \<Rightarrow> string option" where
  "item_identifier item =
     (if i_type item = AStr ''dream''
      then (case i_dreamItem item of
              None \<Rightarrow> None
            | Some dream \<Rightarrow>
                if dream = [] then None
                else (let description = dget_default dream ''description'' (AStr []);
                          name = dget_default dream ''name'' (AStr []);
                          text_to_check = py_str description @ '' '' @ py_str name
                      in text_identifier text_to_check))
      else None)"

definition add_identifier :: "playlist_item \<Rightarrow> string set \<Rightarrow> string set" where
  "add_identifier item existing_identifiers =
     (case item_identifier item of
        None \<Rightarrow> existing_identifiers
      | Some identifier \<Rightarrow> insert identifier existing_identifiers)"

text \<open>
  \<open>type(v).__name__\<close> and the message of the \<open>AttributeError\<close> that \<open>v.get\<close> raises for
  a value \<open>v\<close> that is not a dictionary.
\<close>

fun py_type_name :: "atom \<Rightarrow> string" where
  "py_type_name ANone = ''NoneType''"
| "py_type_name (ABool b) = ''bool''"
| "py_type_name (AInt i) = ''int''"
| "py_type_name (AStr s) = ''str''"

definition attribute_error :: "atom \<Rightarrow> string" where
  "attribute_error v =
     [CHR 0x27] @ py_type_name v @ [CHR 0x27] @ '' object has no attribute ''
     @ [CHR 0x27] @ ''get'' @ [CHR 0x27]"

text \<open>
  \<^verbatim>\<open>
  def get_existing_dream_identifiers(playlist_uuid: str, client) -> Set[str]:
      existing_identifiers = set()
      try:
          playlist = client.get_playlist(playlist_uuid, auto_populate=True)
          items = playlist.get("items", [])
          for item in items: ...
      except Exception as e:
          print(f"Warning: Error getting existing dreams from playlist: {e}", file=sys.stderr)
      return existing_identifiers
  \<close>
  The \<open>try\<close> covers the call and the whole loop. \<open>index_items\<close> is the loop: it gives
  the index it has built and, when the body raised at an item, the exception; the
  items after that one are not read. In the model the body raises at an item that is
  not an object (the value under \<open>dreamItem\<close> of an object is a dictionary or null).
\<close>

fun index_items :: "listed_item list \<Rightarrow> string set \<Rightarrow> string set \<times> error option" where
  "index_items [] existing_identifiers = (existing_identifiers, None)"
| "index_items (Object item # rest) existing_identifiers =
     index_items rest (add_identifier item existing_identifiers)"
| "index_items (NonObject v # rest) existing_identifiers =
     (existing_identifiers, Some (Error (attribute_error v)))"

definition get_existing_dream_identifiers ::
  "'r client \<Rightarrow> atom \<Rightarrow> 'r world \<Rightarrow> string set \<times> 'r world" where
  "get_existing_dream_identifiers c playlist_uuid w =
     (case c_get_playlist c playlist_uuid True w of
        (Inl (Error e), w1) \<Rightarrow>
          ({}, print (''Warning: Error getting existing dreams from playlist: '' @ e) w1)
      | (Inr playlist, w1) \<Rightarrow>
          (case index_items (p_items playlist) {} of
             (existing_identifiers, None) \<Rightarrow> (existing_identifiers, w1)
           | (existing_identifiers, Some (Error e)) \<Rightarrow>
               (existing_identifiers,
                print (''Warning: Error getting existing dreams from playlist: '' @ e) w1)))"

section \<open>The wan-i2v batch: upload and URL resolution\<close>

definition max_retries :: nat where
  "max_retries = 10"

definition url_fields :: "string list" where
  "url_fields = [''original_video'', ''video'', ''thumbnail'']"

text \<open>
  \<^verbatim>\<open>
  for field in ['original_video', 'video', 'thumbnail']:
      url = fetched_dream.get(field)
      if url and isinstance(url, str) and url.startswith('http'):
          image_url = url
          break
  \<close>
\<close>

definition is_http_url :: "atom \<Rightarrow> bool" where
  "is_http_url url = (truthy url \<and> (case url of AStr s \<Rightarrow> startswith ''http'' s | _ \<Rightarrow> False))"

fun pick_url :: "pydict \<Rightarrow> string list \<Rightarrow> atom" where
  "pick_url fetched_dream [] = ANone"
| "pick_url fetched_dream (field # rest) =
     (let url = dget fetched_dream field
      in if is_http_url url then url else pick_url fetched_dream rest)"

text \<open>
  \<^verbatim>\<open>
  image_url = None
  max_retries = 10
  for attempt in range(max_retries):
      try:
          fetched_dream = client.get_dream(dream_uuid)
          for field in [...]: ...
          if image_url:
              break
          if attempt < max_retries - 1:
              time.sleep(0.5)
      except Exception as e:
          print(f"  Retry {attempt + 1}/{max_retries}: {e}")
          if attempt < max_retries - 1:
              time.sleep(0.5)
  \<close>
  \<open>resolve_url\<close> runs the loop over the attempts that are left. A \<open>get_dream\<close> that
  returns \<open>None\<close> makes \<open>fetched_dream.get\<close> raise, which the handler catches like an
  exception of the call itself.
\<close>

definition retry_pause :: "nat \<Rightarrow> 'r world \<Rightarrow> 'r world" where
  "retry_pause attempt w = (if attempt < max_retries - 1 then sleep 500 w else w)"

fun resolve_url :: "'r client \<Rightarrow> atom \<Rightarrow> nat list \<Rightarrow> 'r world \<Rightarrow> atom \<times> 'r world" where
  "resolve_url c dream_uuid [] w = (ANone, w)"
| "resolve_url c dream_uuid (attempt # attempts) w =
     (case c_get_dream c dream_uuid w of
        (Inr (Some fetched_dream), w1) \<Rightarrow>
          (let image_url = pick_url fetched_dream url_fields
           in if truthy image_url then (image_url, w1)
              else resolve_url c dream_uuid attempts (retry_pause attempt w1))
      | (Inr None, w1) \<Rightarrow> resolve_url c dream_uuid attempts (retry_pause attempt w1)
      | (Inl e, w1) \<Rightarrow> resolve_url c dream_uuid attempts (retry_pause attempt w1))"

definition no_url_warning :: string where
  "no_url_warning = ''  Warning: No presigned URL after 10 attempts. Using UUID (may fail).''"

text \<open>
  \<^verbatim>\<open>
  uploaded_dream = client.upload_file(str(image_path), type=FileType.DREAM, options=upload_options)
  dream_uuid = uploaded_dream['uuid']
  ... the retry loop ...
  if image_url:
      source_dream_uuid = image_url
  else:
      print(f"  Warning: No presigned URL after {max_retries} attempts. Using UUID (may fail).")
      source_dream_uuid = dream_uuid
  \<close>
  The result is \<open>source_dream_uuid\<close>, or the exception that leaves the \<open>try\<close> block.
\<close>

definition upload_image :: "'r client \<Rightarrow> string \<Rightarrow> 'r world \<Rightarrow> (error + atom) \<times> 'r world" where
  "upload_image c image_path w =
     (case c_upload_file c image_path w of
        (Inl e, w1) \<Rightarrow> (Inl e, w1)
      | (Inr uploaded_dream, w1) \<Rightarrow>
          (case dsub uploaded_dream ''uuid'' of
             Inl e \<Rightarrow> (Inl e, w1)
           | Inr dream_uuid \<Rightarrow>
               (case resolve_url c dream_uuid [0..<max_retries] w1 of
                  (image_url, w2) \<Rightarrow>
                    if truthy image_url then (Inr image_url, w2)
                    else (Inr dream_uuid, print no_url_warning w2))))"

section \<open>The wan-i2v batch: submission\<close>

text \<open>The variables the submission loop of \<open>main\<close> updates, and the world.\<close>

record 'r submission =
  uploaded_image_map :: "string \<rightharpoonup> atom"
  active_dreams :: "atom list"
  job_count :: nat
  skipped_count :: nat
  failed_count :: nat
  world :: "'r world"

text \<open>
  \<open>combos.index(combo)\<close>: the first position of \<open>combo\<close>. (Python raises
  \<open>ValueError\<close> for a value that is not in the list; the loop only asks for the
  combos it iterates over.)
\<close>

fun py_index :: "'a \<Rightarrow> 'a list \<Rightarrow> nat" where
  "py_index x [] = 0"
| "py_index x (y # ys) = (if x = y then 0 else Suc (py_index x ys))"

definition passthrough_params :: "string list" where
  "passthrough_params =
     [''size'', ''duration'', ''num_inference_steps'', ''guidance'', ''seed'',
      ''negative_prompt'', ''flow_shift'', ''enable_prompt_optimization'',
      ''enable_safety_checker'']"

definition algo_params :: "pydict \<Rightarrow> string \<Rightarrow> atom \<Rightarrow> pydict" where
  "algo_params job_config combined_prompt source_dream_uuid =
     [(''infinidream_algorithm'', AStr ''wan-i2v''),
      (''prompt'', AStr combined_prompt),
      (''image'', source_dream_uuid)]
     @ concat (map (\<lambda>param. case map_of job_config param of
                                None \<Rightarrow> [] | Some v \<Rightarrow> [(param, v)]) passthrough_params)"

text \<open>
  The body of \<open>for combo in combos\<close> (lines 238-286): count the task, skip it when its
  identifier is in the index, otherwise create the dream, add it to the playlist and
  append it to \<open>active_dreams\<close>, all three inside one \<open>try\<close> whose handler counts the
  task as failed.
\<close>

definition submit_combo ::
  "(string \<Rightarrow> digest) \<Rightarrow> 'r client \<Rightarrow> pydict \<Rightarrow> atom \<Rightarrow> string set \<Rightarrow> string list \<Rightarrow>
   string \<Rightarrow> atom \<Rightarrow> string \<Rightarrow> 'r submission \<Rightarrow> 'r submission" where
  "submit_combo md5 c job_config playlist_uuid existing_identifiers combos
       image_path source_dream_uuid combo st0 =
     (let st = st0\<lparr>job_count := job_count st0 + 1\<rparr>;
          combo_idx = py_index combo combos + 1;
          identifier = create_job_identifier md5 image_path combo
      in if identifier \<in> existing_identifiers
         then st\<lparr>skipped_count := skipped_count st + 1\<rparr>
         else
           (let main_prompt = dget_default job_config ''prompt'' (AStr []);
                combined_prompt = py_strip (py_str main_prompt @ '' '' @ combo);
                dream_name = path_stem image_path @ ''_combo-'' @ str_nat combo_idx;
                desc_identifier = batch_marker @ identifier;
                request = \<lparr>req_name = dream_name,
                           req_description = ''Batch generation. '' @ desc_identifier,
                           req_prompt = algo_params job_config combined_prompt source_dream_uuid\<rparr>
            in case c_create_dream_from_prompt c request (world st) of
                 (Inl e, w1) \<Rightarrow>
                   st\<lparr>failed_count := failed_count st + 1,
                      world := print ''  -> Failed to start job'' w1\<rparr>
               | (Inr new_dream, w1) \<Rightarrow>
                   (case dsub new_dream ''uuid'' of
                      Inl e \<Rightarrow>
                        st\<lparr>failed_count := failed_count st + 1,
                           world := print ''  -> Failed to start job'' w1\<rparr>
                    | Inr new_uuid \<Rightarrow>
                        (case c_add_item_to_playlist c playlist_uuid new_uuid w1 of
                           (Inl e, w2) \<Rightarrow>
                             st\<lparr>failed_count := failed_count st + 1,
                                world := print ''  -> Failed to start job'' w2\<rparr>
                         | (Inr u, w2) \<Rightarrow>
                             st\<lparr>active_dreams := active_dreams st @ [new_uuid], world := w2\<rparr>))))"

text \<open>
  The body of \<open>for image_idx, image_path in enumerate(images, 1)\<close> (lines 174-286):
  skip the image when every combo is in the index, upload it when it has no source
  yet (a failed upload counts every combo as failed), then run the combos.
\<close>

definition process_image ::
  "(string \<Rightarrow> digest) \<Rightarrow> 'r client \<Rightarrow> pydict \<Rightarrow> atom \<Rightarrow> string set \<Rightarrow> string list \<Rightarrow>
   string \<Rightarrow> 'r submission \<Rightarrow> 'r submission" where
  "process_image md5 c job_config playlist_uuid existing_identifiers combos image_path st =
     (let source_dream_uuid =
            (case uploaded_image_map st image_path of None \<Rightarrow> ANone | Some v \<Rightarrow> v);
          needs_upload =
            list_ex (\<lambda>combo. create_job_identifier md5 image_path combo \<notin> existing_identifiers)
              combos;
          run = (\<lambda>source st'. fold (submit_combo md5 c job_config playlist_uuid
                    existing_identifiers combos image_path source) combos st')
      in if \<not> needs_upload then st\<lparr>skipped_count := skipped_count st + length combos\<rparr>
         else if \<not> truthy source_dream_uuid
         then (case upload_image c image_path (world st) of
                 (Inl e, w1) \<Rightarrow>
                   st\<lparr>failed_count := failed_count st + length combos, world := w1\<rparr>
               | (Inr source, w1) \<Rightarrow>
                   run source
                     (st\<lparr>uploaded_image_map := (uploaded_image_map st)(image_path \<mapsto> source),
                         world := w1\<rparr>))
         else run source_dream_uuid st)"

definition initial_submission :: "'r world \<Rightarrow> 'r submission" where
  "initial_submission w =
     \<lparr>uploaded_image_map = Map.empty, active_dreams = [], job_count = 0,
      skipped_count = 0, failed_count = 0, world = w\<rparr>"

definition submit_all ::
  "(string \<Rightarrow> digest) \<Rightarrow> 'r client \<Rightarrow> pydict \<Rightarrow> atom \<Rightarrow> string set \<Rightarrow> string list \<Rightarrow>
   string list \<Rightarrow> 'r world \<Rightarrow> 'r submission" where
  "submit_all md5 c job_config playlist_uuid existing_identifiers combos images w =
     fold (process_image md5 c job_config playlist_uuid existing_identifiers combos)
       images (initial_submission w)"

section \<open>The completion poller\<close>

text \<open>
  The polling loop of \<open>run_wan_i2v_batch.py\<close> (lines 298-331); the one of
  \<open>run_uprez_batch.py\<close> (lines 223-251) is the same code.
  \<^verbatim>\<open>
  pending = set(active_dreams)
  poll_interval = 10
  start_time = time.time()
  max_wait = 7200 # 2 hours
  while pending and (time.time() - start_time) < max_wait:
      completed = set()
      for dream_uuid in pending:
          try:
              dream = client.get_dream(dream_uuid)
              status = dream.get("status")
              if status == "processed":
                  completed.add(dream_uuid)
              elif status == "failed":
                  completed.add(dream_uuid)
          except Exception as e:
              print(f"Error checking status for {dream_uuid}: {e}")
      pending -= completed
      if pending:
           time.sleep(poll_interval)
  if pending:
      print(f"\nTimeout waiting for {len(pending)} jobs.")
  else:
      print("\nAll jobs accounted for.")
  \<close>
  The set \<open>pending\<close> is a list without repetitions, iterated from its head: Python
  fixes no iteration order for a set, and nothing below depends on the one chosen.
  Times are in milliseconds.
\<close>

definition poll_interval :: nat where
  "poll_interval = 10000"

definition wan_max_wait :: nat where
  "wan_max_wait = 7200000"

definition is_terminal :: "pydict \<Rightarrow> bool" where
  "is_terminal dream =
     (let status = dget dream ''status''
      in status = AStr ''processed'' \<or> status = AStr ''failed'')"

text \<open>
  What one status query lets the loop conclude: the id is completed when the call
  returned a dream whose status is terminal. A call that raises, or that returns
  \<open>None\<close> (then \<open>dream.get\<close> raises), ends in the handler.
\<close>

fun query_completed :: "error + pydict option \<Rightarrow> bool" where
  "query_completed (Inr (Some dream)) = is_terminal dream"
| "query_completed (Inr None) = False"
| "query_completed (Inl e) = False"

fun poll_round :: "'r client \<Rightarrow> atom list \<Rightarrow> 'r world \<Rightarrow> atom list \<times> 'r world" where
  "poll_round c [] w = ([], w)"
| "poll_round c (dream_uuid # rest) w =
     (case c_get_dream c dream_uuid w of
        (res, w1) \<Rightarrow>
          (case poll_round c rest w1 of
             (completed, w2) \<Rightarrow>
               ((if query_completed res then [dream_uuid] else []) @ completed, w2)))"

definition set_minus :: "atom list \<Rightarrow> atom list \<Rightarrow> atom list" where
  "set_minus pending completed = filter (\<lambda>u. u \<notin> set completed) pending"

lemma clock_call: "clock (snd (call ev op w)) = clock w + snd (snd (op (remote w)))"
  by (simp add: call_def split: prod.splits)

lemma clock_poll_round: "clock w \<le> clock (snd (poll_round c pending w))"
proof (induction pending arbitrary: w)
  case Nil
  show ?case by simp
next
  case (Cons u us)
  obtain res w1 where g: "c_get_dream c u w = (res, w1)"
    by (cases "c_get_dream c u w")
  obtain completed w2 where r: "poll_round c us w1 = (completed, w2)"
    by (cases "poll_round c us w1")
  have "clock w \<le> clock w1"
    using g clock_call [of "EvGetDream u" "get_dream c u" w] by (simp add: c_get_dream_def)
  moreover have "clock w1 \<le> clock w2"
    using Cons.IH [of w1] r by simp
  ultimately show ?case using g r by simp
qed

function poll_loop ::
  "'r client \<Rightarrow> nat \<Rightarrow> nat \<Rightarrow> atom list \<Rightarrow> 'r world \<Rightarrow> atom list \<times> 'r world" where
  "poll_loop c start_time max_wait pending w =
     (if pending \<noteq> [] \<and> clock w - start_time < max_wait
      then (case poll_round c pending w of
              (completed, w1) \<Rightarrow>
                (let pending' = set_minus pending completed
                 in poll_loop c start_time max_wait pending'
                      (if pending' \<noteq> [] then sleep poll_interval w1 else w1)))
      else (pending, w))"
  by pat_completeness auto
termination
  apply (relation "measure (\<lambda>(c, start_time, max_wait, pending, w).
          if pending = [] then 0 else 1 + (start_time + max_wait - clock w))")
   apply simp
  apply (auto simp: sleep_def poll_interval_def)
  subgoal for c start_time max_wait pending w x y
    using clock_poll_round [of w c pending]
    by (cases "poll_round c pending w") auto
  done

declare poll_loop.simps [simp del]

definition timeout_message :: string where
  "timeout_message = ''Timeout waiting for jobs.''"

definition finished_message :: string where
  "finished_message = ''All jobs accounted for.''"

text \<open>
  The end of \<open>main\<close> from line 295 on: nothing to poll when no job was started,
  otherwise the loop and the report of its outcome. The result is the set still
  pending when the loop was left.
\<close>

definition wan_poll :: "'r client \<Rightarrow> atom list \<Rightarrow> 'r world \<Rightarrow> atom list \<times> 'r world" where
  "wan_poll c active w =
     (if active = [] then ([], w)
      else (let pending = remdups active;
                start_time = clock w
            in case poll_loop c start_time wan_max_wait pending w of
                 (pending', w1) \<Rightarrow>
                   (pending', if pending' \<noteq> [] then print timeout_message w1
                              else print finished_message w1)))"

section \<open>The qwen-image batch: one polling round\<close>

text \<open>
  The body of the \<open>while\<close> loop of \<open>run_qwen_image_batch.py\<close> (lines 135-177). Here
  \<open>pending\<close> is a list of pairs of a dream id and the number of its generation; a
  round builds the list \<open>remaining\<close> that replaces it.
  \<^verbatim>\<open>
  for uuid, idx in pending:
      try:
          dream = client.get_dream(uuid)
          status = dream.get("status")
          if status == "processed":
              image_url = dream.get("thumbnail")
              if not image_url:
                  image_url = dream.get("video")
              if image_url:
                  base_filename = config.get("output_filename", "qwen-image")
                  if num_generations > 1:
                      filename = f"{base_filename}_{idx:04d}.png"
                  else:
                      filename = f"{base_filename}.png"
                  output_path = output_dir / filename
                  if download_image(image_url, output_path):
                      downloaded_count += 1
              else:
                  print("  Warning: No image URL found in dream object.")
          elif status == "failed":
              print(f"Job failed: {uuid}")
          else:
              remaining.append((uuid, idx))
      except Exception as e:
          print(f"Error checking status for {uuid}: {e}")
          remaining.append((uuid, idx))
  \<close>
\<close>

text \<open>\<open>f"{idx:04d}"\<close>: the decimal digits, padded with zeros to four characters.\<close>

definition fmt_04d :: "nat \<Rightarrow> string" where
  "fmt_04d n = replicate (4 - length (str_nat n)) CHR ''0'' @ str_nat n"

text \<open>\<open>output_dir / filename\<close>: an absolute right operand replaces the left one.\<close>

definition path_join :: "string \<Rightarrow> string \<Rightarrow> string" where
  "path_join dir file = (if startswith ''/'' file then file else dir @ ''/'' @ file)"

record 'r qwen_round =
  remaining :: "(atom \<times> nat) list"
  downloaded_count :: nat
  q_world :: "'r world"

definition qwen_filename :: "pydict \<Rightarrow> int \<Rightarrow> nat \<Rightarrow> string" where
  "qwen_filename config num_generations idx =
     (let base_filename = py_str (dget_default config ''output_filename'' (AStr ''qwen-image''))
      in if num_generations > 1 then base_filename @ ''_'' @ fmt_04d idx @ ''.png''
         else base_filename @ ''.png'')"

definition qwen_poll_one ::
  "'r client \<Rightarrow> pydict \<Rightarrow> int \<Rightarrow> string \<Rightarrow> atom \<times> nat \<Rightarrow> 'r qwen_round \<Rightarrow> 'r qwen_round" where
  "qwen_poll_one c config num_generations output_dir job st =
     (case job of
        (uuid, idx) \<Rightarrow>
          (case c_get_dream c uuid (q_world st) of
             (Inl e, w1) \<Rightarrow> st\<lparr>remaining := remaining st @ [(uuid, idx)], q_world := w1\<rparr>
           | (Inr None, w1) \<Rightarrow> st\<lparr>remaining := remaining st @ [(uuid, idx)], q_world := w1\<rparr>
           | (Inr (Some dream), w1) \<Rightarrow>
               (let status = dget dream ''status''
                in if status = AStr ''processed''
                   then (let image_url = py_or (dget dream ''thumbnail'') (dget dream ''video'')
                         in if truthy image_url
                            then (case c_download_image c image_url
                                         (path_join output_dir
                                            (qwen_filename config num_generations idx)) w1 of
                                    (ok, w2) \<Rightarrow>
                                      st\<lparr>downloaded_count :=
                                            (if ok then downloaded_count st + 1
                                             else downloaded_count st),
                                         q_world := w2\<rparr>)
                            else st\<lparr>q_world :=
                                   print ''  Warning: No image URL found in dream object.'' w1\<rparr>)
                   else if status = AStr ''failed'' then st\<lparr>q_world := w1\<rparr>
                   else st\<lparr>remaining := remaining st @ [(uuid, idx)], q_world := w1\<rparr>)))"

definition qwen_poll_round ::
  "'r client \<Rightarrow> pydict \<Rightarrow> int \<Rightarrow> string \<Rightarrow> (atom \<times> nat) list \<Rightarrow> nat \<Rightarrow> 'r world \<Rightarrow>
   'r qwen_round" where
  "qwen_poll_round c config num_generations output_dir pending downloaded w =
     fold (qwen_poll_one c config num_generations output_dir) pending
       \<lparr>remaining = [], downloaded_count = downloaded, q_world = w\<rparr>"

section \<open>The qwen-image batch: the polling loop\<close>

text \<open>
  The \<open>while\<close> loop of \<open>run_qwen_image_batch.py\<close> (lines 128-177).
  \<^verbatim>\<open>
  pending = list(active_jobs)
  downloaded_count = 0
  poll_interval = 10
  start_time = time.time()
  max_wait = 3600
  while pending and (time.time() - start_time) < max_wait:
      remaining = []
      for uuid, idx in pending: ...
      pending = remaining
      if pending:
          time.sleep(poll_interval)
  \<close>
  The result is the list still pending when the loop is left, the number of images
  downloaded, and the world. The deadline \<open>max_wait\<close> is an argument; \<open>main\<close> passes
  3600 s.
\<close>

lemma clock_qwen_poll_one:
  "clock (q_world st) \<le> clock (q_world (qwen_poll_one c config n dir job st))"
proof -
  obtain u idx where job: "job = (u, idx)"
    by (cases job)
  obtain res w1 where g: "c_get_dream c u (q_world st) = (res, w1)"
    by (cases "c_get_dream c u (q_world st)")
  have le1: "clock (q_world st) \<le> clock w1"
    using g clock_call [of "EvGetDream u" "get_dream c u" "q_world st"]
    by (simp add: c_get_dream_def)
  have le2: "clock w1 \<le> clock (snd (c_download_image c url path w1))" for url path
    using clock_call [of "EvDownload url path" "download_image c url path" w1]
    by (simp add: c_download_image_def)
  show ?thesis
  proof (cases res)
    case (Inl e)
    then show ?thesis
      using g le1 by (simp add: job qwen_poll_one_def)
  next
    case (Inr od)
    show ?thesis
    proof (cases od)
      case None
      then show ?thesis
        using g le1 Inr by (simp add: job qwen_poll_one_def)
    next
      case (Some dream)
      let ?url = "py_or (dget dream ''thumbnail'') (dget dream ''video'')"
      let ?path = "path_join dir (qwen_filename config n idx)"
      obtain ok w2 where dl: "c_download_image c ?url ?path w1 = (ok, w2)"
        by (cases "c_download_image c ?url ?path w1")
      have "clock w1 \<le> clock w2"
        using le2 [of ?url ?path] dl by simp
      then show ?thesis
        using g le1 Inr Some dl by (simp add: job qwen_poll_one_def Let_def print_def)
    qed
  qed
qed

lemma clock_qwen_fold:
  "clock (q_world st) \<le> clock (q_world (fold (qwen_poll_one c config n dir) pending st))"
proof (induction pending arbitrary: st)
  case Nil
  show ?case by simp
next
  case (Cons job jobs)
  have "clock (q_world st) \<le> clock (q_world (qwen_poll_one c config n dir job st))"
    by (rule clock_qwen_poll_one)
  also have "\<dots> \<le> clock (q_world (fold (qwen_poll_one c config n dir) jobs
                         (qwen_poll_one c config n dir job st)))"
    by (rule Cons.IH)
  finally show ?case by simp
qed

lemma clock_qwen_poll_round:
  "clock w \<le> clock (q_world (qwen_poll_round c config n dir pending k w))"
  using clock_qwen_fold [of "\<lparr>remaining = [], downloaded_count = k, q_world = w\<rparr>"
      c config n dir pending]
  by (simp add: qwen_poll_round_def)

function qwen_poll_loop ::
  "'r client \<Rightarrow> pydict \<Rightarrow> int \<Rightarrow> string \<Rightarrow> nat \<Rightarrow> nat \<Rightarrow> (atom \<times> nat) list \<Rightarrow> nat \<Rightarrow>
   'r world \<Rightarrow> (atom \<times> nat) list \<times> nat \<times> 'r world" where
  "qwen_poll_loop c config num_generations output_dir start_time max_wait pending downloaded w =
     (if pending \<noteq> [] \<and> clock w - start_time < max_wait
      then (let st = qwen_poll_round c config num_generations output_dir pending downloaded w
            in qwen_poll_loop c config num_generations output_dir start_time max_wait
                 (remaining st) (downloaded_count st)
                 (if remaining st \<noteq> [] then sleep poll_interval (q_world st) else q_world st))
      else (pending, downloaded, w))"
  by pat_completeness auto
termination
  apply (relation "measure (\<lambda>(c, config, num_generations, output_dir, start_time, max_wait,
          pending, downloaded, w).
          if pending = [] then 0 else 1 + (start_time + max_wait - clock w))")
   apply simp
  apply (auto simp: sleep_def poll_interval_def)
  subgoal for c config num_generations output_dir start_time max_wait pending downloaded w
    using clock_qwen_poll_round [of w c config num_generations output_dir pending downloaded]
    by simp
  done

declare qwen_poll_loop.simps [simp del]

section \<open>The uprez batch\<close>

text \<open>
  \<^verbatim>\<open>
  def get_all_playlist_dreams(client, playlist_uuid: str) -> List[Dict[str, Any]]:
      all_dreams = []
      skip = 0
      take = 100
      while True:
          try:
              response = client.get_playlist_items(playlist_uuid, take=take, skip=skip)
              items = response.get("items", [])
              if not items:
                  break
              for item in items:
                  if item.get("type") == "dream" and item.get("dreamItem"):
                      dream = item["dreamItem"]
                      all_dreams.append({"dream": dream, "playlist_item_id": item.get("id")})
              total_count = response.get("totalCount", 0)
              if len(all_dreams) >= total_count or len(items) < take:
                  break
              skip += take
          except Exception as e:
              print(f"Error fetching playlist items: {e}", file=sys.stderr)
              break
      return all_dreams
  \<close>
  An entry of \<open>all_dreams\<close> is the pair of the dream and the id of its playlist item.
  The loop has no bound of its own: it is \<open>fetch_pages\<close>, whose value is \<open>None\<close>
  when the loop never ends. The items of a page are objects in the model, so that the
  only exception inside the \<open>try\<close> is the one the listing call raises.
\<close>

type_synonym dream_entry = "pydict \<times> atom"

definition page_size :: nat where
  "page_size = 100"

definition is_dream_item :: "playlist_item \<Rightarrow> bool" where
  "is_dream_item item =
     (i_type item = AStr ''dream'' \<and>
      (case i_dreamItem item of None \<Rightarrow> False | Some dream \<Rightarrow> dream \<noteq> []))"

definition dream_entries :: "playlist_item list \<Rightarrow> dream_entry list" where
  "dream_entries page =
     concat (map (\<lambda>item. if is_dream_item item
                          then (case i_dreamItem item of
                                  None \<Rightarrow> [] | Some dream \<Rightarrow> [(dream, i_id item)])
                          else []) page)"

partial_function (option) fetch_pages ::
  "'r client \<Rightarrow> atom \<Rightarrow> dream_entry list \<Rightarrow> nat \<Rightarrow> 'r world \<Rightarrow>
   (dream_entry list \<times> 'r world) option" where
  "fetch_pages c playlist_uuid all_dreams skip w =
     (case c_get_playlist_items c playlist_uuid page_size skip w of
        (Inl (Error e), w1) \<Rightarrow>
          Some (all_dreams, print (''Error fetching playlist items: '' @ e) w1)
      | (Inr response, w1) \<Rightarrow>
          (if pg_items response = [] then Some (all_dreams, w1)
           else (let all_dreams' = all_dreams @ dream_entries (pg_items response);
                     total_count = pg_totalCount response
                 in if length all_dreams' \<ge> total_count \<or> length (pg_items response) < page_size
                    then Some (all_dreams', w1)
                    else fetch_pages c playlist_uuid all_dreams' (skip + page_size) w1)))"

definition get_all_playlist_dreams ::
  "'r client \<Rightarrow> atom \<Rightarrow> 'r world \<Rightarrow> (dream_entry list \<times> 'r world) option" where
  "get_all_playlist_dreams c playlist_uuid w = fetch_pages c playlist_uuid [] 0 w"


text \<open>
  \<^verbatim>\<open>
  def update_dream_description(client, dream_uuid: str, marker: str = "uprez") -> bool:
      try:
          dream = client.get_dream(dream_uuid)
          if not dream:
              return False
          current_description = dream.get("description") or ""
          if marker.lower() in current_description.lower():
              return True
          if current_description:
              new_description = f"{current_description} {marker}"
          else:
              new_description = marker
          update_data: UpdateDreamRequest = {"description": new_description}
          client.update_dream(dream_uuid, update_data)
          return True
      except Exception as e:
          print(f"Error updating dream description: {e}", file=sys.stderr)
          return False
  \<close>
\<close>

definition update_error :: "string \<Rightarrow> string" where
  "update_error e = ''Error updating dream description: '' @ e"

definition update_dream_description ::
  "'r client \<Rightarrow> atom \<Rightarrow> string \<Rightarrow> 'r world \<Rightarrow> bool \<times> 'r world" where
  "update_dream_description c dream_uuid marker w =
     (case c_get_dream c dream_uuid w of
        (Inl (Error e), w1) \<Rightarrow> (False, print (update_error e) w1)
      | (Inr None, w1) \<Rightarrow> (False, w1)
      | (Inr (Some dream), w1) \<Rightarrow>
          if dream = [] then (False, w1)
          else (case py_or (dget dream ''description'') (AStr []) of
                  AStr current_description \<Rightarrow>
                    if py_in (py_lower marker) (py_lower current_description) then (True, w1)
                    else (let new_description =
                                (if current_description \<noteq> []
                                 then current_description @ '' '' @ marker else marker)
                          in case c_update_dream c dream_uuid
                                    [(''description'', AStr new_description)] w1 of
                               (Inl (Error e), w2) \<Rightarrow> (False, print (update_error e) w2)
                             | (Inr u, w2) \<Rightarrow> (True, w2))
                | other \<Rightarrow> (False, print (update_error ''AttributeError'') w1)))"


definition uprez_params :: "pydict \<Rightarrow> atom \<Rightarrow> pydict" where
  "uprez_params uprez_config dream_uuid =
     [(''infinidream_algorithm'', AStr ''uprez''),
      (''video_uuid'', dream_uuid),
      (''upscale_factor'', dget_default uprez_config ''upscale_factor'' (AInt 2)),
      (''interpolation_factor'', dget_default uprez_config ''interpolation_factor'' (AInt 2)),
      (''output_format'', dget_default uprez_config ''output_format'' (AStr ''mp4'')),
      (''tile_size'', dget_default uprez_config ''tile_size'' (AInt 1024)),
      (''tile_padding'', dget_default uprez_config ''tile_padding'' (AInt 10)),
      (''quality'', dget_default uprez_config ''quality'' (AStr ''high''))]"

definition add_failed_message :: string where
  "add_failed_message = ''  -> Failed to add to playlist''"

definition start_failed_message :: string where
  "start_failed_message = ''  -> Failed to start uprez''"

text \<open>
  The body of the submission loop of \<open>main\<close> (lines 180-221), on the list
  \<open>active_jobs\<close> and the world. The call that adds the new dream to the output
  playlist has a \<open>try\<close> of its own, inside the one around the creation.
  \<^verbatim>\<open>
  try:
      new_dream = client.create_dream_from_prompt({...})
      print(f"  -> Uprez job started: {new_dream['uuid']}")
      try:
          client.add_item_to_playlist(playlist_uuid=output_playlist_uuid,
              type=PlaylistItemType.DREAM, item_uuid=new_dream['uuid'])
      except Exception as e:
          print(f"  -> Failed to add to playlist: {e}")
      update_dream_description(client, dream_uuid, marker)
      active_jobs.append(new_dream['uuid'])
  except Exception as e:
      print(f"  -> Failed to start uprez: {e}")
  \<close>
\<close>

definition uprez_submit ::
  "'r client \<Rightarrow> pydict \<Rightarrow> atom \<Rightarrow> string \<Rightarrow> dream_entry \<Rightarrow>
   atom list \<times> 'r world \<Rightarrow> atom list \<times> 'r world" where
  "uprez_submit c uprez_config output_playlist_uuid marker dream_data st =
     (case st of
        (active_jobs, w) \<Rightarrow>
          (let dream = fst dream_data;
               dream_uuid = dget dream ''uuid'';
               dream_name = py_or (dget dream ''name'') (AStr ''Untitled'');
               request = \<lparr>req_name = py_str dream_name @ '' (Uprez)'',
                          req_description = ''Uprez of '' @ py_str dream_uuid,
                          req_prompt = uprez_params uprez_config dream_uuid\<rparr>
           in case c_create_dream_from_prompt c request w of
                (Inl e, w1) \<Rightarrow> (active_jobs, print start_failed_message w1)
              | (Inr new_dream, w1) \<Rightarrow>
                  (case dsub new_dream ''uuid'' of
                     Inl e \<Rightarrow> (active_jobs, print start_failed_message w1)
                   | Inr new_uuid \<Rightarrow>
                       (let w2 = (case c_add_item_to_playlist c output_playlist_uuid new_uuid w1 of
                                    (Inl e, w') \<Rightarrow> print add_failed_message w'
                                  | (Inr u, w') \<Rightarrow> w')
                        in case update_dream_description c dream_uuid marker w2 of
                             (ok, w3) \<Rightarrow> (active_jobs @ [new_uuid], w3)))))"

definition uprez_submit_all ::
  "'r client \<Rightarrow> pydict \<Rightarrow> atom \<Rightarrow> string \<Rightarrow> dream_entry list \<Rightarrow> 'r world \<Rightarrow>
   atom list \<times> 'r world" where
  "uprez_submit_all c uprez_config output_playlist_uuid marker dreams_to_process w =
     fold (uprez_submit c uprez_config output_playlist_uuid marker) dreams_to_process ([], w)"

section \<open>A reference remote store\<close>

text \<open>
  Modelled from the spec: the service behind the SDK client is not part of the
  repository. Section 6 of the spec gives the contract the scripts need of it, and
  \<open>ref_client\<close> is a store that meets it without ever failing on a well-formed
  request: dreams are kept by id, a playlist is the ordered list of its members (a
  reference to a dream, or an item of another kind), creating a dream stores the
  name and description it was given, updating a dream overwrites the fields sent,
  listing is by offset and reports the total number of members. Every call takes
  \<open>call_time\<close> milliseconds.
\<close>

datatype member = MDream atom | MItem playlist_item

record store =
  s_dreams :: "(atom \<times> pydict) list"
  s_playlists :: "(atom \<times> member list) list"
  s_next :: nat
  call_time :: nat

definition not_found :: "'a \<Rightarrow> store \<Rightarrow> (error + 'b) \<times> store \<times> nat" where
  "not_found x s = (Inl (Error ''404 not found''), s, call_time s)"

definition member_item :: "store \<Rightarrow> member \<Rightarrow> playlist_item" where
  "member_item s m =
     (case m of
        MDream u \<Rightarrow> \<lparr>i_type = AStr ''dream'', i_id = u, i_dreamItem = map_of (s_dreams s) u\<rparr>
      | MItem item \<Rightarrow> item)"

definition ref_get_dream :: "atom \<Rightarrow> store \<Rightarrow> (error + pydict option) \<times> store \<times> nat" where
  "ref_get_dream u s =
     (case map_of (s_dreams s) u of
        None \<Rightarrow> not_found u s
      | Some dream \<Rightarrow> (Inr (Some dream), s, call_time s))"

definition ref_update_dream :: "atom \<Rightarrow> pydict \<Rightarrow> store \<Rightarrow> (error + unit) \<times> store \<times> nat" where
  "ref_update_dream u upd s =
     (case map_of (s_dreams s) u of
        None \<Rightarrow> not_found u s
      | Some dream \<Rightarrow>
          (Inr (),
           s\<lparr>s_dreams := AList.update u (fold (\<lambda>(k, v) d. AList.update k v d) upd dream)
                              (s_dreams s)\<rparr>,
           call_time s))"

definition fresh_uuid :: "store \<Rightarrow> atom" where
  "fresh_uuid s = AStr (''dream-'' @ str_nat (s_next s))"

definition ref_create_dream_from_prompt ::
  "create_request \<Rightarrow> store \<Rightarrow> (error + pydict) \<times> store \<times> nat" where
  "ref_create_dream_from_prompt req s =
     (let dream = [(''uuid'', fresh_uuid s),
                   (''name'', AStr (req_name req)),
                   (''description'', AStr (req_description req)),
                   (''status'', AStr ''queue'')]
      in (Inr dream,
          s\<lparr>s_dreams := AList.update (fresh_uuid s) dream (s_dreams s), s_next := s_next s + 1\<rparr>,
          call_time s))"

definition ref_upload_file :: "string \<Rightarrow> store \<Rightarrow> (error + pydict) \<times> store \<times> nat" where
  "ref_upload_file path s =
     (let dream = [(''uuid'', fresh_uuid s),
                   (''name'', AStr (path_name path)),
                   (''status'', AStr ''processed''),
                   (''original_video'', AStr (''https://store/'' @ path_name path))]
      in (Inr dream,
          s\<lparr>s_dreams := AList.update (fresh_uuid s) dream (s_dreams s), s_next := s_next s + 1\<rparr>,
          call_time s))"

definition ref_add_item_to_playlist ::
  "atom \<Rightarrow> atom \<Rightarrow> store \<Rightarrow> (error + unit) \<times> store \<times> nat" where
  "ref_add_item_to_playlist playlist_uuid item_uuid s =
     (case map_of (s_playlists s) playlist_uuid of
        None \<Rightarrow> not_found playlist_uuid s
      | Some members \<Rightarrow>
          (Inr (),
           s\<lparr>s_playlists := AList.update playlist_uuid (members @ [MDream item_uuid])
                                 (s_playlists s)\<rparr>,
           call_time s))"

definition ref_get_playlist ::
  "atom \<Rightarrow> bool \<Rightarrow> store \<Rightarrow> (error + playlist) \<times> store \<times> nat" where
  "ref_get_playlist playlist_uuid auto_populate s =
     (case map_of (s_playlists s) playlist_uuid of
        None \<Rightarrow> not_found playlist_uuid s
      | Some members \<Rightarrow>
          (Inr \<lparr>p_fields = [(''uuid'', playlist_uuid)],
                p_items = (if auto_populate then map (\<lambda>m. Object (member_item s m)) members
                           else [])\<rparr>,
           s, call_time s))"

definition ref_get_playlist_items ::
  "atom \<Rightarrow> nat \<Rightarrow> nat \<Rightarrow> store \<Rightarrow> (error + items_page) \<times> store \<times> nat" where
  "ref_get_playlist_items playlist_uuid tk sk s =
     (case map_of (s_playlists s) playlist_uuid of
        None \<Rightarrow> not_found playlist_uuid s
      | Some members \<Rightarrow>
          (Inr \<lparr>pg_items = take tk (drop sk (map (member_item s) members)),
                pg_totalCount = length members\<rparr>,
           s, call_time s))"

definition ref_download_image :: "atom \<Rightarrow> string \<Rightarrow> store \<Rightarrow> bool \<times> store \<times> nat" where
  "ref_download_image url path s = (True, s, call_time s)"

definition ref_client :: "store client" where
  "ref_client =
     \<lparr>get_playlist = ref_get_playlist,
      get_playlist_items = ref_get_playlist_items,
      get_dream = ref_get_dream,
      update_dream = ref_update_dream,
      upload_file = ref_upload_file,
      create_dream_from_prompt = ref_create_dream_from_prompt,
      add_item_to_playlist = ref_add_item_to_playlist,
      download_image = ref_download_image\<rparr>"

definition start_world :: "'r \<Rightarrow> 'r world" where
  "start_world r = \<lparr>clock = 0, trace = [], remote = r\<rparr>"

text \<open>The events a run added to the trace.\<close>

definition new_events :: "'r world \<Rightarrow> 'r world \<Rightarrow> event list" where
  "new_events w w' = drop (length (trace w)) (trace w')"

text \<open>The number of tasks the three outcome counters of the summary account for.\<close>

definition counted :: "'r submission \<Rightarrow> nat" where
  "counted st = length (active_dreams st) + skipped_count st + failed_count st"

section \<open>Example inputs\<close>

text \<open>
  Concrete inputs for the runs evaluated below. \<open>example_md5\<close> stands for the digest
  function on those runs, where the only text hashed is the empty combo: its value is
  the MD5 digest of the empty string.
\<close>

definition example_md5 :: "string \<Rightarrow> digest" where
  "example_md5 s = 0xd41d8cd98f00b204e9800998ecf8427e"

text \<open>A store that holds no playlist: adding an item to a playlist raises.\<close>

definition store_no_playlist :: store where
  "store_no_playlist = \<lparr>s_dreams = [], s_playlists = [], s_next = 0, call_time = 0\<rparr>"

definition source_dream :: pydict where
  "source_dream = [(''uuid'', AStr ''src''), (''name'', AStr ''clip'')]"

definition store_source_only :: store where
  "store_source_only =
     \<lparr>s_dreams = [(AStr ''src'', source_dream)], s_playlists = [], s_next = 0, call_time = 0\<rparr>"

text \<open>
  One run of the wan-i2v \<open>main\<close> from the dedup scan on (lines 142-293), for a
  playlist that \<open>main\<close> has found: build the index of existing identifiers, then
  submit.
\<close>

definition reconcile_and_submit ::
  "(string \<Rightarrow> digest) \<Rightarrow> 'r client \<Rightarrow> pydict \<Rightarrow> atom \<Rightarrow> string list \<Rightarrow> string list \<Rightarrow>
   'r world \<Rightarrow> 'r submission" where
  "reconcile_and_submit md5 c job_config playlist_uuid combos images w =
     (case get_existing_dream_identifiers c playlist_uuid w of
        (existing_identifiers, w1) \<Rightarrow>
          submit_all md5 c job_config playlist_uuid existing_identifiers combos images w1)"

text \<open>A store with one empty playlist \<open>pl\<close>.\<close>

definition store_empty_playlist :: store where
  "store_empty_playlist =
     \<lparr>s_dreams = [], s_playlists = [(AStr ''pl'', [])], s_next = 0, call_time = 0\<rparr>"

text \<open>The world after a first run on the image \<open>a b.png\<close> with one empty combo.\<close>

definition after_first_run :: "store world" where
  "after_first_run =
     world (reconcile_and_submit example_md5 ref_client [] (AStr ''pl'') [''''] [''/imgs/a b.png'']
              (start_world store_empty_playlist))"

text \<open>A client whose every call raises: the service cannot be reached.\<close>

definition raise_unreachable :: "unit \<Rightarrow> (error + 'a) \<times> unit \<times> nat" where
  "raise_unreachable r = (Inl (Error ''connection refused''), r, 0)"

definition failing_client :: "unit client" where
  "failing_client =
     \<lparr>get_playlist = (\<lambda>u a. raise_unreachable),
      get_playlist_items = (\<lambda>u tk sk. raise_unreachable),
      get_dream = (\<lambda>u. raise_unreachable),
      update_dream = (\<lambda>u d. raise_unreachable),
      upload_file = (\<lambda>p. raise_unreachable),
      create_dream_from_prompt = (\<lambda>req. raise_unreachable),
      add_item_to_playlist = (\<lambda>p u. raise_unreachable),
      download_image = (\<lambda>url p r. (False, r, 0))\<rparr>"

text \<open>
  For a round that queried the entries \<open>xs\<close> in order and got the results \<open>rs\<close>:
  the entries whose own query did not return a terminal status.
\<close>

definition still_pending :: "'a list \<Rightarrow> (error + pydict option) list \<Rightarrow> 'a list" where
  "still_pending xs rs = map fst (filter (\<lambda>(x, res). \<not> query_completed res) (zip xs rs))"

definition is_get_dream :: "event \<Rightarrow> bool" where
  "is_get_dream ev = (case ev of EvGetDream u res \<Rightarrow> True | _ \<Rightarrow> False)"

text \<open>A client on which no dream ever finishes: every status query says \<open>processing\<close>.\<close>

definition busy_get_dream :: "nat \<Rightarrow> atom \<Rightarrow> unit \<Rightarrow> (error + pydict option) \<times> unit \<times> nat" where
  "busy_get_dream d u r = (Inr (Some [(''uuid'', u), (''status'', AStr ''processing'')]), r, d)"

definition busy_client :: "nat \<Rightarrow> unit client" where
  "busy_client d = failing_client\<lparr>get_dream := busy_get_dream d\<rparr>"

text \<open>
  A store with a dream that is processed and one that still runs; the id \<open>gone\<close> used
  below is not in the store, so that its status query raises.
\<close>

definition store_mixed :: store where
  "store_mixed =
     \<lparr>s_dreams = [(AStr ''done'', [(''uuid'', AStr ''done''), (''status'', AStr ''processed'')]),
                  (AStr ''busy'', [(''uuid'', AStr ''busy''), (''status'', AStr ''processing'')])],
      s_playlists = [], s_next = 0, call_time = 0\<rparr>"





text \<open>
  The spec's words for marking (section 4.3): the marker word appended to the
  description, once, after a space when the description is not empty.
\<close>

definition spec_marked :: "string \<Rightarrow> string \<Rightarrow> string" where
  "spec_marked description marker =
     (if description = [] then marker else description @ '' '' @ marker)"

definition is_update_dream :: "event \<Rightarrow> bool" where
  "is_update_dream ev = (case ev of EvUpdateDream u upd res \<Rightarrow> True | _ \<Rightarrow> False)"

text \<open>The description of a dream of the store, as \<open>dream.get("description")\<close> reads it.\<close>

definition stored_description :: "store \<Rightarrow> atom \<Rightarrow> atom" where
  "stored_description s u =
     (case map_of (s_dreams s) u of None \<Rightarrow> ANone | Some dream \<Rightarrow> dget dream ''description'')"

text \<open>A store with one dream whose description is \<open>nice clip\<close>.\<close>

definition store_one_dream :: store where
  "store_one_dream =
     \<lparr>s_dreams = [(AStr ''src'', [(''uuid'', AStr ''src''), (''description'', AStr ''nice clip'')])],
      s_playlists = [], s_next = 0, call_time = 0\<rparr>"

section \<open>Services that accept submissions\<close>










text \<open>The items of a playlist of the store, as a listing returns them.\<close>

definition listed :: "store \<Rightarrow> member list \<Rightarrow> playlist_item list" where
  "listed s members = map (member_item s) members"

text \<open>
  The \<open>i\<close>-th listing call of a scan of the collection \<open>coll\<close> of the playlist \<open>pl\<close>,
  with what an offset-based listing returns for it: the items from position
  \<open>i * page_size\<close> on, at most \<open>page_size\<close> of them, and the total count.
\<close>

definition page_items :: "playlist_item list \<Rightarrow> nat \<Rightarrow> playlist_item list" where
  "page_items coll i = take page_size (drop (i * page_size) coll)"

definition page_call :: "atom \<Rightarrow> playlist_item list \<Rightarrow> nat \<Rightarrow> event" where
  "page_call pl coll i =
     EvGetPlaylistItems pl page_size (i * page_size)
       (Inr \<lparr>pg_items = page_items coll i, pg_totalCount = length coll\<rparr>)"

text \<open>The spec's count of listing calls (section 8): \<open>ceil(N / k)\<close>.\<close>

definition spec_calls :: "nat \<Rightarrow> nat \<Rightarrow> nat" where
  "spec_calls n k = (n + k - 1) div k"

text \<open>
  A playlist item that is a dream, one that is not, and a store whose playlist \<open>pl\<close>
  holds 199 of the first and then one of the second: 200 items.
\<close>

definition a_dream_item :: playlist_item where
  "a_dream_item =
     \<lparr>i_type = AStr ''dream'', i_id = AInt 1, i_dreamItem = Some [(''uuid'', AStr ''d1'')]\<rparr>"

definition a_playlist_item :: playlist_item where
  "a_playlist_item = \<lparr>i_type = AStr ''playlist'', i_id = AInt 2, i_dreamItem = None\<rparr>"

definition store_200 :: store where
  "store_200 =
     \<lparr>s_dreams = [],
      s_playlists = [(AStr ''pl'', replicate 199 (MItem a_dream_item) @ [MItem a_playlist_item])],
      s_next = 0, call_time = 0\<rparr>"

text \<open>A store whose playlist \<open>pl\<close> holds 150 dreams.\<close>

definition store_150 :: store where
  "store_150 =
     \<lparr>s_dreams = [], s_playlists = [(AStr ''pl'', replicate 150 (MItem a_dream_item))],
      s_next = 0, call_time = 0\<rparr>"

definition is_listing :: "event \<Rightarrow> bool" where
  "is_listing ev = (case ev of EvGetPlaylistItems pl tk sk res \<Rightarrow> True | _ \<Rightarrow> False)"

text \<open>
  The world after the calls \<open>evs\<close> on the reference store, when none of them changes
  the store.
\<close>

definition after_calls :: "store world \<Rightarrow> event list \<Rightarrow> store world" where
  "after_calls w evs =
     \<lparr>clock = clock w + length evs * call_time (remote w), trace = trace w @ evs,
      remote = remote w\<rparr>"

section \<open>Properties of the identity deriver\<close>





section \<open>The summary counts of the wan-i2v batch\<close>

lemma counted_submit_combo:
  "counted (submit_combo md5 c cfg pl ex combos img src combo st) = counted st + 1"
  by (simp add: submit_combo_def counted_def Let_def split: prod.splits sum.splits)

lemma counted_fold_submit_combo:
  "counted (fold (submit_combo md5 c cfg pl ex combos img src) cs st) = counted st + length cs"
  by (induction cs arbitrary: st) (simp_all add: counted_submit_combo)

lemma counted_process_image:
  "counted (process_image md5 c cfg pl ex combos img st) = counted st + length combos"
  by (simp add: process_image_def Let_def counted_fold_submit_combo split: prod.splits sum.splits)
     (simp add: counted_def)

lemma counted_fold_process_image:
  "counted (fold (process_image md5 c cfg pl ex combos) imgs st)
   = counted st + length imgs * length combos"
  by (induction imgs arbitrary: st) (simp_all add: counted_process_image)

text \<open>
  Claim C10. When the submission loop of the wan-i2v batch is over, every pair of an
  image and a combo has been counted once: the number of active dreams, the number of
  skipped tasks and the number of failed tasks add up to the number of images times
  the number of combos. This holds for every client, whatever its calls return or
  raise, for every index of existing identifiers and every configuration.
\<close>

theorem summary_counts_partition:
  "length (active_dreams (submit_all md5 c cfg pl ex combos imgs w))
   + skipped_count (submit_all md5 c cfg pl ex combos imgs w)
   + failed_count (submit_all md5 c cfg pl ex combos imgs w)
   = length imgs * length combos"
  using counted_fold_process_image [of md5 c cfg pl ex combos imgs "initial_submission w"]
  by (simp add: submit_all_def counted_def initial_submission_def)

section \<open>A job whose attachment to the playlist fails\<close>

text \<open>
  In the uprez batch the call that adds the new dream to the playlist has a handler of
  its own: once the dream is created, its id enters \<open>active_jobs\<close> whatever that call
  does.
\<close>

lemma uprez_submit_keeps_created_job:
  assumes "c_create_dream_from_prompt c
             \<lparr>req_name = py_str (py_or (dget (fst dream_data) ''name'') (AStr ''Untitled''))
                          @ '' (Uprez)'',
              req_description = ''Uprez of '' @ py_str (dget (fst dream_data) ''uuid''),
              req_prompt = uprez_params cfg (dget (fst dream_data) ''uuid'')\<rparr> w
           = (Inr new_dream, w1)"
    and "dsub new_dream ''uuid'' = Inr u"
  shows "fst (uprez_submit c cfg pl marker dream_data (active, w)) = active @ [u]"
  using assms by (simp add: uprez_submit_def Let_def split: prod.splits sum.splits)

text \<open>
  In the wan-i2v batch the same call stands in the \<open>try\<close> block of the creation: when
  it raises, the task is counted as failed and the id of the dream that was created
  is not appended to \<open>active_dreams\<close>.
\<close>

lemma wan_submit_combo_attachment_failure:
  assumes "create_job_identifier md5 img combo \<notin> ex"
    and "c_create_dream_from_prompt c
           \<lparr>req_name = path_stem img @ ''_combo-'' @ str_nat (py_index combo combos + 1),
            req_description =
              ''Batch generation. '' @ batch_marker @ create_job_identifier md5 img combo,
            req_prompt =
              algo_params cfg
                (py_strip (py_str (dget_default cfg ''prompt'' (AStr [])) @ '' '' @ combo)) src\<rparr>
           (world st) = (Inr new_dream, w1)"
    and "dsub new_dream ''uuid'' = Inr u"
    and "c_add_item_to_playlist c pl u w1 = (Inl e, w2)"
  shows "active_dreams (submit_combo md5 c cfg pl ex combos img src combo st) = active_dreams st
       \<and> failed_count (submit_combo md5 c cfg pl ex combos img src combo st) = failed_count st + 1"
  using assms by (simp add: submit_combo_def Let_def)

text \<open>
  Claim C9, at a failing input. One image \<open>cat.png\<close> and one empty combo are submitted
  to a store on which the playlist \<open>pl\<close> does not exist, so that the dream is created
  and the call that adds it to the playlist raises. The wan-i2v batch ends with no
  active dream and one failed task, although the store now holds the dream it created
  (second in the list, after the uploaded image) with its batch identifier. On the
  same kind of store the uprez batch keeps the id of the dream it created.
\<close>

theorem wan_attachment_failure_drops_job:
  "active_dreams (submit_all example_md5 ref_client [] (AStr ''pl'') {} [''''] [''/imgs/cat.png'']
                    (start_world store_no_playlist)) = []
   \<and> failed_count (submit_all example_md5 ref_client [] (AStr ''pl'') {} [''''] [''/imgs/cat.png'']
                    (start_world store_no_playlist)) = 1
   \<and> map (\<lambda>d. dget (snd d) ''description'')
        (s_dreams (remote (world (submit_all example_md5 ref_client [] (AStr ''pl'') {} ['''']
                    [''/imgs/cat.png''] (start_world store_no_playlist)))))
       = [ANone, AStr ''Batch generation. BATCH_IDENTIFIER:cat.png:d41d8cd9'']
   \<and> fst (uprez_submit_all ref_client [] (AStr ''pl'') ''uprez'' [(source_dream, AInt 1)]
            (start_world store_source_only)) = [AStr ''dream-0'']"
  by code_simp

section \<open>Submitting the same work twice\<close>

text \<open>
  Claim C2, at a failing input. The image \<open>a b.png\<close>, whose name holds a space, is
  submitted with one empty combo to a playlist that is empty. The first run creates
  one job, tagged \<open>BATCH_IDENTIFIER:a b.png:d41d8cd9\<close>, and adds it to the playlist.
  The index built from the playlist afterwards holds \<open>a\<close>, the tag up to its first
  whitespace, and not the identifier. The second run therefore skips nothing and
  creates the job again.
\<close>

theorem second_run_resubmits_name_with_space:
  "create_job_identifier example_md5 ''/imgs/a b.png'' '''' = ''a b.png:d41d8cd9''
   \<and> active_dreams (reconcile_and_submit example_md5 ref_client [] (AStr ''pl'') ['''']
                      [''/imgs/a b.png''] (start_world store_empty_playlist)) = [AStr ''dream-1'']
   \<and> fst (get_existing_dream_identifiers ref_client (AStr ''pl'') after_first_run) = {''a''}
   \<and> active_dreams (reconcile_and_submit example_md5 ref_client [] (AStr ''pl'') ['''']
                      [''/imgs/a b.png''] after_first_run) = [AStr ''dream-3'']
   \<and> skipped_count (reconcile_and_submit example_md5 ref_client [] (AStr ''pl'') ['''']
                      [''/imgs/a b.png''] after_first_run) = 0"
  by code_simp

section \<open>One polling round\<close>

lemma c_get_dream_trace:
  "c_get_dream c u w = (res, w1) \<Longrightarrow> trace w1 = trace w @ [EvGetDream u res]"
  by (auto simp: c_get_dream_def call_def split: prod.splits)

lemma poll_round_results:
  "\<exists>rs. length rs = length pending
      \<and> trace (snd (poll_round c pending w)) = trace w @ map2 EvGetDream pending rs
      \<and> fst (poll_round c pending w)
          = map fst (filter (\<lambda>(u, res). query_completed res) (zip pending rs))"
proof (induction pending arbitrary: w)
  case Nil
  show ?case by simp
next
  case (Cons u us)
  obtain res w1 where g: "c_get_dream c u w = (res, w1)"
    by (cases "c_get_dream c u w")
  have t1: "trace w1 = trace w @ [EvGetDream u res]"
    by (rule c_get_dream_trace [OF g])
  obtain completed w2 where r: "poll_round c us w1 = (completed, w2)"
    by (cases "poll_round c us w1")
  from Cons.IH [of w1] r obtain rs where rs: "length rs = length us"
    "trace w2 = trace w1 @ map2 EvGetDream us rs"
    "completed = map fst (filter (\<lambda>(u, res). query_completed res) (zip us rs))"
    by auto
  have "length (res # rs) = length (u # us)
      \<and> trace (snd (poll_round c (u # us) w)) = trace w @ map2 EvGetDream (u # us) (res # rs)
      \<and> fst (poll_round c (u # us) w)
          = map fst (filter (\<lambda>(u, res). query_completed res) (zip (u # us) (res # rs)))"
    using g t1 r rs by simp
  then show ?case by blast
qed

lemma set_minus_still_pending:
  assumes "distinct xs" "length rs = length xs"
  shows "set_minus xs (map fst (filter (\<lambda>(u, res). query_completed res) (zip xs rs)))
         = still_pending xs rs"
  using assms
proof (induction xs arbitrary: rs)
  case Nil
  show ?case by (simp add: set_minus_def still_pending_def)
next
  case (Cons x xs)
  then obtain r rs' where rs: "rs = r # rs'" "length rs' = length xs"
    by (cases rs) auto
  let ?done = "map fst (filter (\<lambda>(u, res). query_completed res) (zip xs rs'))"
  have notin: "x \<notin> set ?done"
    using Cons.prems(1) by (auto dest: set_zip_leftD)
  have tail: "filter (\<lambda>u. u \<notin> set (x # ?done)) xs = filter (\<lambda>u. u \<notin> set ?done) xs"
    using Cons.prems(1) by (intro filter_cong) auto
  have ih: "filter (\<lambda>u. u \<notin> set ?done) xs = still_pending xs rs'"
    using Cons.IH [of rs'] Cons.prems(1) rs(2) by (simp add: set_minus_def)
  show ?case
    using notin tail ih by (simp add: rs set_minus_def still_pending_def)
qed

lemma qwen_poll_one_result:
  "\<exists>res. filter is_get_dream (trace (q_world (qwen_poll_one c cfg n dir (u, idx) st)))
           = filter is_get_dream (trace (q_world st)) @ [EvGetDream u res]
        \<and> remaining (qwen_poll_one c cfg n dir (u, idx) st)
           = remaining st @ still_pending [(u, idx)] [res]"
proof -
  obtain res w1 where g: "c_get_dream c u (q_world st) = (res, w1)"
    by (cases "c_get_dream c u (q_world st)")
  have t1: "trace w1 = trace (q_world st) @ [EvGetDream u res]"
    by (rule c_get_dream_trace [OF g])
  have d: "filter is_get_dream (trace (snd (c_download_image c url path w1)))
           = filter is_get_dream (trace w1)" for url path
    by (simp add: c_download_image_def call_def is_get_dream_def split: prod.splits)
  have p: "filter is_get_dream (trace (print msg w1)) = filter is_get_dream (trace w1)" for msg
    by (simp add: print_def is_get_dream_def)
  have "filter is_get_dream (trace (q_world (qwen_poll_one c cfg n dir (u, idx) st)))
           = filter is_get_dream (trace (q_world st)) @ [EvGetDream u res]
        \<and> remaining (qwen_poll_one c cfg n dir (u, idx) st)
           = remaining st @ still_pending [(u, idx)] [res]"
  proof (cases res)
    case (Inl e)
    then show ?thesis
      using g t1 by (simp add: qwen_poll_one_def still_pending_def is_get_dream_def)
  next
    case (Inr od)
    show ?thesis
    proof (cases od)
      case None
      then show ?thesis
        using g t1 Inr by (simp add: qwen_poll_one_def still_pending_def is_get_dream_def)
    next
      case (Some dream)
      let ?url = "py_or (dget dream ''thumbnail'') (dget dream ''video'')"
      let ?path = "path_join dir (qwen_filename cfg n idx)"
      obtain ok w2 where dl: "c_download_image c ?url ?path w1 = (ok, w2)"
        by (cases "c_download_image c ?url ?path w1")
      have t2: "filter is_get_dream (trace w2) = filter is_get_dream (trace w1)"
        using d [of ?url ?path] dl by simp
      have t3: "filter is_get_dream (trace w1)
                = filter is_get_dream (trace (q_world st)) @ [EvGetDream u res]"
        by (simp add: t1 is_get_dream_def)
      show ?thesis
        using g Inr Some dl t2 t3 p
        by (simp add: qwen_poll_one_def still_pending_def is_terminal_def Let_def)
    qed
  qed
  then show ?thesis by blast
qed

lemma qwen_fold_results:
  "\<exists>rs. length rs = length pending
      \<and> filter is_get_dream (trace (q_world (fold (qwen_poll_one c cfg n dir) pending st)))
          = filter is_get_dream (trace (q_world st)) @ map2 EvGetDream (map fst pending) rs
      \<and> remaining (fold (qwen_poll_one c cfg n dir) pending st)
          = remaining st @ still_pending pending rs"
proof (induction pending arbitrary: st)
  case Nil
  show ?case by (simp add: still_pending_def)
next
  case (Cons job jobs)
  obtain u idx where job: "job = (u, idx)" by (cases job)
  from qwen_poll_one_result [of c cfg n dir u idx st] obtain res where res:
    "filter is_get_dream (trace (q_world (qwen_poll_one c cfg n dir (u, idx) st)))
       = filter is_get_dream (trace (q_world st)) @ [EvGetDream u res]"
    "remaining (qwen_poll_one c cfg n dir (u, idx) st)
       = remaining st @ still_pending [(u, idx)] [res]"
    by blast
  from Cons.IH [of "qwen_poll_one c cfg n dir (u, idx) st"] obtain rs where rs:
    "length rs = length jobs"
    "filter is_get_dream (trace (q_world (fold (qwen_poll_one c cfg n dir) jobs
        (qwen_poll_one c cfg n dir (u, idx) st))))
       = filter is_get_dream (trace (q_world (qwen_poll_one c cfg n dir (u, idx) st)))
         @ map2 EvGetDream (map fst jobs) rs"
    "remaining (fold (qwen_poll_one c cfg n dir) jobs (qwen_poll_one c cfg n dir (u, idx) st))
       = remaining (qwen_poll_one c cfg n dir (u, idx) st) @ still_pending jobs rs"
    by blast
  have "length (res # rs) = length (job # jobs)
      \<and> filter is_get_dream (trace (q_world (fold (qwen_poll_one c cfg n dir) (job # jobs) st)))
          = filter is_get_dream (trace (q_world st))
            @ map2 EvGetDream (map fst (job # jobs)) (res # rs)
      \<and> remaining (fold (qwen_poll_one c cfg n dir) (job # jobs) st)
          = remaining st @ still_pending (job # jobs) (res # rs)"
    using res rs by (simp add: job still_pending_def)
  then show ?case by blast
qed

lemma distinct_still_pending:
  assumes "distinct xs"
  shows "distinct (still_pending xs rs)"
proof -
  have "distinct (map fst (zip xs rs))"
    using assms by (simp add: map_fst_zip_take)
  then show ?thesis
    unfolding still_pending_def by (rule distinct_map_filter)
qed

text \<open>
  One turn of the wan-i2v (and uprez) loop: the set carried to the next round is the
  set of the ids whose query of this round did not return a terminal status.
\<close>

lemma poll_loop_turn:
  assumes "distinct pending" and "length rs = length pending"
    and "fst (poll_round c pending w)
         = map fst (filter (\<lambda>(u, res). query_completed res) (zip pending rs))"
  shows "poll_loop c start_time max_wait pending w
         = (if pending \<noteq> [] \<and> clock w - start_time < max_wait
            then poll_loop c start_time max_wait (still_pending pending rs)
                   (if still_pending pending rs \<noteq> []
                    then sleep poll_interval (snd (poll_round c pending w))
                    else snd (poll_round c pending w))
            else (pending, w))"
proof -
  obtain completed w1 where r: "poll_round c pending w = (completed, w1)"
    by (cases "poll_round c pending w")
  have "set_minus pending (fst (poll_round c pending w)) = still_pending pending rs"
    using set_minus_still_pending [OF assms(1,2)] assms(3) by simp
  then have m: "set_minus pending completed = still_pending pending rs"
    by (simp add: r)
  show ?thesis
    by (subst poll_loop.simps) (simp add: r m Let_def)
qed

text \<open>One turn of the qwen-image loop: \<open>pending = remaining\<close>.\<close>

lemma qwen_poll_loop_turn:
  assumes "remaining (qwen_poll_round c cfg n dir jobs k w) = still_pending jobs rs"
  shows "qwen_poll_loop c cfg n dir start_time max_wait jobs k w
         = (if jobs \<noteq> [] \<and> clock w - start_time < max_wait
            then qwen_poll_loop c cfg n dir start_time max_wait (still_pending jobs rs)
                   (downloaded_count (qwen_poll_round c cfg n dir jobs k w))
                   (if still_pending jobs rs \<noteq> []
                    then sleep poll_interval (q_world (qwen_poll_round c cfg n dir jobs k w))
                    else q_world (qwen_poll_round c cfg n dir jobs k w))
            else (jobs, k, w))"
  by (subst qwen_poll_loop.simps) (simp add: Let_def assms)

text \<open>
  Claim C5. Take the polling loop of the wan-i2v (and uprez) batch at the start of any
  round, with its pending set. When the loop is not left, every pending id is queried
  once, in order, and the loop goes on with exactly the ids whose own query of this
  round did not return a dream with status \<open>processed\<close> or \<open>failed\<close>: an id leaves the
  set only if its query returned a terminal status, and a query that raises or returns
  another status leaves it in for the next round. The set carried on has no
  repetitions, so the same holds for the round after. The same holds for the list
  \<open>pending\<close> of the loop of the qwen-image batch.
\<close>

theorem round_removes_only_terminal:
  assumes "distinct pending"
  shows "(\<exists>rs. length rs = length pending
            \<and> trace (snd (poll_round c pending w)) = trace w @ map2 EvGetDream pending rs
            \<and> set_minus pending (fst (poll_round c pending w)) = still_pending pending rs
            \<and> distinct (still_pending pending rs)
            \<and> poll_loop c start_time max_wait pending w
                = (if pending \<noteq> [] \<and> clock w - start_time < max_wait
                   then poll_loop c start_time max_wait (still_pending pending rs)
                          (if still_pending pending rs \<noteq> []
                           then sleep poll_interval (snd (poll_round c pending w))
                           else snd (poll_round c pending w))
                   else (pending, w)))
       \<and> (\<exists>rs. length rs = length jobs
            \<and> filter is_get_dream (trace (q_world (qwen_poll_round c cfg n dir jobs k w)))
                = filter is_get_dream (trace w) @ map2 EvGetDream (map fst jobs) rs
            \<and> remaining (qwen_poll_round c cfg n dir jobs k w) = still_pending jobs rs
            \<and> qwen_poll_loop c cfg n dir start_time max_wait jobs k w
                = (if jobs \<noteq> [] \<and> clock w - start_time < max_wait
                   then qwen_poll_loop c cfg n dir start_time max_wait (still_pending jobs rs)
                          (downloaded_count (qwen_poll_round c cfg n dir jobs k w))
                          (if still_pending jobs rs \<noteq> []
                           then sleep poll_interval
                                  (q_world (qwen_poll_round c cfg n dir jobs k w))
                           else q_world (qwen_poll_round c cfg n dir jobs k w))
                   else (jobs, k, w)))"
proof
  from poll_round_results [of pending c w] obtain rs where rs: "length rs = length pending"
    "trace (snd (poll_round c pending w)) = trace w @ map2 EvGetDream pending rs"
    "fst (poll_round c pending w)
       = map fst (filter (\<lambda>(u, res). query_completed res) (zip pending rs))"
    by blast
  have m: "set_minus pending (fst (poll_round c pending w)) = still_pending pending rs"
    using set_minus_still_pending [OF assms rs(1)] rs(3) by simp
  have d: "distinct (still_pending pending rs)"
    by (rule distinct_still_pending [OF assms])
  note l = poll_loop_turn [OF assms rs(1) rs(3), of start_time max_wait]
  from rs(1) rs(2) m d l
  show "\<exists>rs. length rs = length pending
            \<and> trace (snd (poll_round c pending w)) = trace w @ map2 EvGetDream pending rs
            \<and> set_minus pending (fst (poll_round c pending w)) = still_pending pending rs
            \<and> distinct (still_pending pending rs)
            \<and> poll_loop c start_time max_wait pending w
                = (if pending \<noteq> [] \<and> clock w - start_time < max_wait
                   then poll_loop c start_time max_wait (still_pending pending rs)
                          (if still_pending pending rs \<noteq> []
                           then sleep poll_interval (snd (poll_round c pending w))
                           else snd (poll_round c pending w))
                   else (pending, w))"
    by blast
next
  from qwen_fold_results [of jobs c cfg n dir
      "\<lparr>remaining = [], downloaded_count = k, q_world = w\<rparr>"]
  obtain rs where rs: "length rs = length jobs"
    "filter is_get_dream (trace (q_world (qwen_poll_round c cfg n dir jobs k w)))
       = filter is_get_dream (trace w) @ map2 EvGetDream (map fst jobs) rs"
    "remaining (qwen_poll_round c cfg n dir jobs k w) = still_pending jobs rs"
    by (auto simp: qwen_poll_round_def)
  note l = qwen_poll_loop_turn [OF rs(3), of start_time max_wait]
  from rs l
  show "\<exists>rs. length rs = length jobs
            \<and> filter is_get_dream (trace (q_world (qwen_poll_round c cfg n dir jobs k w)))
                = filter is_get_dream (trace w) @ map2 EvGetDream (map fst jobs) rs
            \<and> remaining (qwen_poll_round c cfg n dir jobs k w) = still_pending jobs rs
            \<and> qwen_poll_loop c cfg n dir start_time max_wait jobs k w
                = (if jobs \<noteq> [] \<and> clock w - start_time < max_wait
                   then qwen_poll_loop c cfg n dir start_time max_wait (still_pending jobs rs)
                          (downloaded_count (qwen_poll_round c cfg n dir jobs k w))
                          (if still_pending jobs rs \<noteq> []
                           then sleep poll_interval
                                  (q_world (qwen_poll_round c cfg n dir jobs k w))
                           else q_world (qwen_poll_round c cfg n dir jobs k w))
                   else (jobs, k, w))"
    by blast
qed

theorem round_removes_only_terminal_witness:
  "distinct [AStr ''done'', AStr ''busy'', AStr ''gone'']
   \<and> fst (poll_loop ref_client 0 15000 [AStr ''done'', AStr ''busy'', AStr ''gone'']
        (start_world store_mixed))
      = [AStr ''busy'', AStr ''gone'']
   \<and> fst (qwen_poll_loop ref_client [] 2 ''out'' 0 15000
        [(AStr ''done'', 1), (AStr ''gone'', 2)] 0 (start_world store_mixed))
      = [(AStr ''gone'', 2)]
   \<and> still_pending [AStr ''done'', AStr ''busy'', AStr ''gone'']
        [Inr (Some [(''uuid'', AStr ''done''), (''status'', AStr ''processed'')]),
         Inr (Some [(''uuid'', AStr ''busy''), (''status'', AStr ''processing'')]),
         Inl (Error ''404 not found'')]
      = [AStr ''busy'', AStr ''gone'']
   \<and> (\<exists>rs. length rs = length [AStr ''done'', AStr ''busy'', AStr ''gone'']
         \<and> trace (snd (poll_round ref_client [AStr ''done'', AStr ''busy'', AStr ''gone'']
               (start_world store_mixed)))
             = trace (start_world store_mixed)
               @ map2 EvGetDream [AStr ''done'', AStr ''busy'', AStr ''gone''] rs
         \<and> poll_loop ref_client 0 15000 [AStr ''done'', AStr ''busy'', AStr ''gone'']
               (start_world store_mixed)
             = poll_loop ref_client 0 15000
                 (still_pending [AStr ''done'', AStr ''busy'', AStr ''gone''] rs)
                 (if still_pending [AStr ''done'', AStr ''busy'', AStr ''gone''] rs \<noteq> []
                  then sleep poll_interval
                         (snd (poll_round ref_client
                                 [AStr ''done'', AStr ''busy'', AStr ''gone'']
                                 (start_world store_mixed)))
                  else snd (poll_round ref_client [AStr ''done'', AStr ''busy'', AStr ''gone'']
                              (start_world store_mixed))))"
proof -
  have d: "distinct [AStr ''done'', AStr ''busy'', AStr ''gone'']"
    by simp
  have e1: "fst (poll_loop ref_client 0 15000 [AStr ''done'', AStr ''busy'', AStr ''gone'']
        (start_world store_mixed))
      = [AStr ''busy'', AStr ''gone'']"
    by code_simp
  have e2: "fst (qwen_poll_loop ref_client [] 2 ''out'' 0 15000
        [(AStr ''done'', 1), (AStr ''gone'', 2)] 0 (start_world store_mixed))
      = [(AStr ''gone'', 2)]"
    by code_simp
  have e3: "still_pending [AStr ''done'', AStr ''busy'', AStr ''gone'']
        [Inr (Some [(''uuid'', AStr ''done''), (''status'', AStr ''processed'')]),
         Inr (Some [(''uuid'', AStr ''busy''), (''status'', AStr ''processing'')]),
         Inl (Error ''404 not found'')]
      = [AStr ''busy'', AStr ''gone'']"
    by code_simp
  have run: "[AStr ''done'', AStr ''busy'', AStr ''gone''] \<noteq> []
             \<and> clock (start_world store_mixed) - 0 < (15000::nat)"
    by (simp add: start_world_def)
  from round_removes_only_terminal [OF d, where c = ref_client
      and w = "start_world store_mixed" and start_time = 0 and max_wait = 15000
      and jobs = "[(AStr ''done'', 1::nat), (AStr ''gone'', 2)]" and cfg = "[]" and n = 2
      and dir = "''out''" and k = 0]
  obtain rs where rs: "length rs = length [AStr ''done'', AStr ''busy'', AStr ''gone'']"
    "trace (snd (poll_round ref_client [AStr ''done'', AStr ''busy'', AStr ''gone'']
        (start_world store_mixed)))
      = trace (start_world store_mixed)
        @ map2 EvGetDream [AStr ''done'', AStr ''busy'', AStr ''gone''] rs"
    "poll_loop ref_client 0 15000 [AStr ''done'', AStr ''busy'', AStr ''gone'']
        (start_world store_mixed)
      = (if [AStr ''done'', AStr ''busy'', AStr ''gone''] \<noteq> []
            \<and> clock (start_world store_mixed) - 0 < 15000
         then poll_loop ref_client 0 15000
                (still_pending [AStr ''done'', AStr ''busy'', AStr ''gone''] rs)
                (if still_pending [AStr ''done'', AStr ''busy'', AStr ''gone''] rs \<noteq> []
                 then sleep poll_interval
                        (snd (poll_round ref_client
                                [AStr ''done'', AStr ''busy'', AStr ''gone'']
                                (start_world store_mixed)))
                 else snd (poll_round ref_client [AStr ''done'', AStr ''busy'', AStr ''gone'']
                             (start_world store_mixed)))
         else ([AStr ''done'', AStr ''busy'', AStr ''gone''], start_world store_mixed))"
    by blast
  have t: "\<exists>rs. length rs = length [AStr ''done'', AStr ''busy'', AStr ''gone'']
         \<and> trace (snd (poll_round ref_client [AStr ''done'', AStr ''busy'', AStr ''gone'']
               (start_world store_mixed)))
             = trace (start_world store_mixed)
               @ map2 EvGetDream [AStr ''done'', AStr ''busy'', AStr ''gone''] rs
         \<and> poll_loop ref_client 0 15000 [AStr ''done'', AStr ''busy'', AStr ''gone'']
               (start_world store_mixed)
             = poll_loop ref_client 0 15000
                 (still_pending [AStr ''done'', AStr ''busy'', AStr ''gone''] rs)
                 (if still_pending [AStr ''done'', AStr ''busy'', AStr ''gone''] rs \<noteq> []
                  then sleep poll_interval
                         (snd (poll_round ref_client
                                 [AStr ''done'', AStr ''busy'', AStr ''gone'']
                                 (start_world store_mixed)))
                  else snd (poll_round ref_client [AStr ''done'', AStr ''busy'', AStr ''gone'']
                              (start_world store_mixed)))"
    using rs(1) rs(2) rs(3) run by (intro exI [of _ rs]) (simp only: if_True simp_thms)
  show ?thesis
    by (rule conjI [OF d conjI [OF e1 conjI [OF e2 conjI [OF e3 t]]]])
qed

section \<open>Resolving the URL of an uploaded image\<close>









section \<open>Marking a dream as processed\<close>

text \<open>\<open>py_in\<close> is the substring test.\<close>

lemma py_in_prefix: "py_in sub (sub @ ys)"
proof (cases "sub @ ys")
  case Nil
  then show ?thesis by simp
next
  case (Cons a list)
  have "startswith sub (sub @ ys)"
    by (simp add: startswith_def)
  then have "py_in sub (a # list)"
    using Cons by simp
  then show ?thesis
    using Cons by simp
qed

lemma py_in_append: "py_in sub (xs @ sub @ ys)"
proof (induction xs)
  case Nil
  show ?case by (simp add: py_in_prefix)
next
  case (Cons x xs)
  then show ?case by simp
qed

lemma py_in_iff: "py_in sub s \<longleftrightarrow> (\<exists>pre post. s = pre @ sub @ post)"
proof
  show "py_in sub s \<Longrightarrow> \<exists>pre post. s = pre @ sub @ post"
  proof (induction s)
    case Nil
    then show ?case by simp
  next
    case (Cons c cs)
    show ?case
    proof (cases "startswith sub (c # cs)")
      case True
      then have "c # cs = [] @ sub @ drop (length sub) (c # cs)"
        by (metis append_Nil append_take_drop_id startswith_def)
      then show ?thesis by blast
    next
      case False
      with Cons obtain pre post where "cs = pre @ sub @ post" by auto
      then have "c # cs = (c # pre) @ sub @ post" by simp
      then show ?thesis by blast
    qed
  qed
next
  show "\<exists>pre post. s = pre @ sub @ post \<Longrightarrow> py_in sub s"
    using py_in_append by blast
qed

text \<open>The description that marking writes holds the marker, whatever the case of either.\<close>

lemma marker_in_marked:
  "py_in (py_lower marker) (py_lower (spec_marked description marker))"
proof (cases "description = []")
  case True
  then show ?thesis
    using py_in_prefix [of "py_lower marker" "[]"] by (simp add: spec_marked_def)
next
  case False
  then show ?thesis
    using py_in_append [of "py_lower marker" "py_lower (description @ '' '')" "[]"]
    by (simp add: spec_marked_def py_lower_def)
qed

text \<open>
  For every client: when the dream read holds the marker, the function answers
  \<open>True\<close> after that one read.
\<close>

lemma update_description_present:
  assumes "c_get_dream c u w = (Inr (Some dream), w1)" and "dream \<noteq> []"
    and "py_or (dget dream ''description'') (AStr []) = AStr description"
    and "py_in (py_lower marker) (py_lower description)"
  shows "update_dream_description c u marker w = (True, w1)"
  using assms by (simp add: update_dream_description_def)

text \<open>
  For every client: when the dream read does not hold the marker, the function sends
  one update, whose description is the old one with the marker appended, and answers
  \<open>True\<close> unless the update raises.
\<close>

lemma update_description_absent:
  assumes "c_get_dream c u w = (Inr (Some dream), w1)" and "dream \<noteq> []"
    and "py_or (dget dream ''description'') (AStr []) = AStr description"
    and "\<not> py_in (py_lower marker) (py_lower description)"
    and "c_update_dream c u [(''description'', AStr (spec_marked description marker))] w1
         = (res, w2)"
  shows "update_dream_description c u marker w
         = (case res of Inl (Error e) \<Rightarrow> (False, print (update_error e) w2)
                      | Inr ok \<Rightarrow> (True, w2))"
  using assms
  by (auto simp: update_dream_description_def spec_marked_def Let_def
      split: sum.splits error.splits)

lemma ref_get_dream_world:
  assumes "map_of (s_dreams (remote w)) u = Some dream"
  shows "c_get_dream ref_client u w
         = (Inr (Some dream),
            \<lparr>clock = clock w + call_time (remote w),
             trace = trace w @ [EvGetDream u (Inr (Some dream))], remote = remote w\<rparr>)"
  using assms by (simp add: c_get_dream_def call_def ref_client_def ref_get_dream_def)

lemma ref_update_dream_world:
  assumes "map_of (s_dreams (remote w)) u = Some dream"
  shows "c_update_dream ref_client u [(''description'', AStr d)] w
         = (Inr (),
            \<lparr>clock = clock w + call_time (remote w),
             trace = trace w @ [EvUpdateDream u [(''description'', AStr d)] (Inr ())],
             remote = (remote w)\<lparr>s_dreams :=
                AList.update u (AList.update ''description'' (AStr d) dream)
                  (s_dreams (remote w))\<rparr>\<rparr>)"
  using assms by (simp add: c_update_dream_def call_def ref_client_def ref_update_dream_def)

lemma first_call_on_store:
  assumes "map_of (s_dreams (remote w)) u = Some dream" and "dream \<noteq> []"
    and "py_or (dget dream ''description'') (AStr []) = AStr description"
  shows "fst (update_dream_description ref_client u marker w)
       \<and> stored_description (remote (snd (update_dream_description ref_client u marker w))) u
           = (if py_in (py_lower marker) (py_lower description) then dget dream ''description''
              else AStr (spec_marked description marker))
       \<and> filter is_update_dream (new_events w (snd (update_dream_description ref_client u marker w)))
           = (if py_in (py_lower marker) (py_lower description) then []
              else [EvUpdateDream u [(''description'', AStr (spec_marked description marker))]
                      (Inr ())])"
proof (cases "py_in (py_lower marker) (py_lower description)")
  case True
  have "update_dream_description ref_client u marker w
        = (True, \<lparr>clock = clock w + call_time (remote w),
             trace = trace w @ [EvGetDream u (Inr (Some dream))], remote = remote w\<rparr>)"
    by (rule update_description_present [OF ref_get_dream_world [OF assms(1)] assms(2,3) True])
  then show ?thesis
    using True assms(1)
    by (simp add: stored_description_def new_events_def is_update_dream_def)
next
  case False
  let ?w1 = "\<lparr>clock = clock w + call_time (remote w),
             trace = trace w @ [EvGetDream u (Inr (Some dream))], remote = remote w\<rparr>"
  have m: "map_of (s_dreams (remote ?w1)) u = Some dream"
    using assms(1) by simp
  have "update_dream_description ref_client u marker w
        = (True, snd (c_update_dream ref_client u
                   [(''description'', AStr (spec_marked description marker))] ?w1))"
    using update_description_absent [OF ref_get_dream_world [OF assms(1)] assms(2,3) False
        ref_update_dream_world [OF m]]
    by (simp add: ref_update_dream_world [OF m])
  then show ?thesis
    using False
    by (simp add: ref_update_dream_world [OF m] stored_description_def new_events_def
        is_update_dream_def update_conv' dget_def)
qed

text \<open>
  Claim C4. On a store that keeps what it is sent, take a dream whose description is
  a string (or is absent or null, which the function reads as the empty string). The
  first call answers \<open>True\<close>; it sends no update when the description already holds
  the marker in any case, and otherwise one update that appends the marker once, after
  a space when the description is not empty. The second call answers \<open>True\<close>, sends no
  update and leaves the store as the first call left it: the description holds one
  appended marker, never two.
\<close>

theorem mark_processed_idempotent:
  assumes "map_of (s_dreams (remote w)) u = Some dream" and "dream \<noteq> []"
    and "py_or (dget dream ''description'') (AStr []) = AStr description"
  shows "fst (update_dream_description ref_client u marker w)
       \<and> stored_description (remote (snd (update_dream_description ref_client u marker w))) u
           = (if py_in (py_lower marker) (py_lower description) then dget dream ''description''
              else AStr (spec_marked description marker))
       \<and> filter is_update_dream (new_events w (snd (update_dream_description ref_client u marker w)))
           = (if py_in (py_lower marker) (py_lower description) then []
              else [EvUpdateDream u [(''description'', AStr (spec_marked description marker))]
                      (Inr ())])
       \<and> fst (update_dream_description ref_client u marker
                (snd (update_dream_description ref_client u marker w)))
       \<and> remote (snd (update_dream_description ref_client u marker
                        (snd (update_dream_description ref_client u marker w))))
           = remote (snd (update_dream_description ref_client u marker w))
       \<and> filter is_update_dream
           (new_events (snd (update_dream_description ref_client u marker w))
              (snd (update_dream_description ref_client u marker
                      (snd (update_dream_description ref_client u marker w))))) = []"
proof -
  let ?w1 = "snd (update_dream_description ref_client u marker w)"
  note first = first_call_on_store [OF assms, of marker]
  obtain dream1 description1 where second:
    "map_of (s_dreams (remote ?w1)) u = Some dream1" "dream1 \<noteq> []"
    "py_or (dget dream1 ''description'') (AStr []) = AStr description1"
    "py_in (py_lower marker) (py_lower description1)"
  proof (cases "py_in (py_lower marker) (py_lower description)")
    case True
    have "update_dream_description ref_client u marker w
        = (True, \<lparr>clock = clock w + call_time (remote w),
             trace = trace w @ [EvGetDream u (Inr (Some dream))], remote = remote w\<rparr>)"
      by (rule update_description_present [OF ref_get_dream_world [OF assms(1)] assms(2,3) True])
    then have "map_of (s_dreams (remote ?w1)) u = Some dream"
      using assms(1) by simp
    with that assms(2,3) True show ?thesis by blast
  next
    case False
    let ?w0 = "\<lparr>clock = clock w + call_time (remote w),
             trace = trace w @ [EvGetDream u (Inr (Some dream))], remote = remote w\<rparr>"
    let ?d1 = "AList.update ''description'' (AStr (spec_marked description marker)) dream"
    have m: "map_of (s_dreams (remote ?w0)) u = Some dream"
      using assms(1) by simp
    have "update_dream_description ref_client u marker w
        = (True, snd (c_update_dream ref_client u
                   [(''description'', AStr (spec_marked description marker))] ?w0))"
      using update_description_absent [OF ref_get_dream_world [OF assms(1)] assms(2,3) False
          ref_update_dream_world [OF m]]
      by (simp add: ref_update_dream_world [OF m])
    then have a: "map_of (s_dreams (remote ?w1)) u = Some ?d1"
      by (simp add: ref_update_dream_world [OF m] update_conv')
    have b: "?d1 \<noteq> []"
      using assms(2) by (cases dream) (auto split: if_splits)
    have nonempty: "spec_marked description marker \<noteq> []"
      using False by (auto simp: spec_marked_def py_lower_def)
    have c: "py_or (dget ?d1 ''description'') (AStr []) = AStr (spec_marked description marker)"
      using nonempty by (simp add: dget_def update_conv' py_or_def)
    from that [OF a b c marker_in_marked] show ?thesis .
  qed
  have again: "update_dream_description ref_client u marker ?w1
        = (True, \<lparr>clock = clock ?w1 + call_time (remote ?w1),
             trace = trace ?w1 @ [EvGetDream u (Inr (Some dream1))], remote = remote ?w1\<rparr>)"
    by (rule update_description_present [OF ref_get_dream_world [OF second(1)] second(2,3,4)])
  have "fst (update_dream_description ref_client u marker ?w1)
      \<and> remote (snd (update_dream_description ref_client u marker ?w1)) = remote ?w1
      \<and> filter is_update_dream
           (new_events ?w1 (snd (update_dream_description ref_client u marker ?w1))) = []"
    by (simp add: again new_events_def is_update_dream_def)
  with first show ?thesis by blast
qed

theorem mark_processed_idempotent_witness:
  "stored_description (remote (snd (update_dream_description ref_client (AStr ''src'') ''uprez''
       (start_world store_one_dream)))) (AStr ''src'') = AStr ''nice clip uprez''
   \<and> stored_description (remote (snd (update_dream_description ref_client (AStr ''src'') ''uprez''
       (snd (update_dream_description ref_client (AStr ''src'') ''uprez''
          (start_world store_one_dream)))))) (AStr ''src'') = AStr ''nice clip uprez''
   \<and> filter is_update_dream
        (new_events (snd (update_dream_description ref_client (AStr ''src'') ''uprez''
             (start_world store_one_dream)))
           (snd (update_dream_description ref_client (AStr ''src'') ''uprez''
              (snd (update_dream_description ref_client (AStr ''src'') ''uprez''
                 (start_world store_one_dream)))))) = []"
proof -
  have h1: "map_of (s_dreams (remote (start_world store_one_dream))) (AStr ''src'')
            = Some [(''uuid'', AStr ''src''), (''description'', AStr ''nice clip'')]"
    by (simp add: start_world_def store_one_dream_def)
  have h2: "[(''uuid'', AStr ''src''), (''description'', AStr ''nice clip'')] \<noteq> []"
    by simp
  have h3: "py_or (dget [(''uuid'', AStr ''src''), (''description'', AStr ''nice clip'')]
                ''description'') (AStr []) = AStr ''nice clip''"
    by (simp add: dget_def py_or_def)
  have absent: "\<not> py_in (py_lower ''uprez'') (py_lower ''nice clip'')"
    by code_simp
  have marked: "spec_marked ''nice clip'' ''uprez'' = ''nice clip uprez''"
    by (simp add: spec_marked_def)
  note t = mark_processed_idempotent [OF h1 h2 h3, of "''uprez''"]
  from t absent marked show ?thesis by simp
qed

section \<open>The deadline of the poller\<close>

lemma set_minus_Nil: "set_minus pending [] = pending"
  by (simp add: set_minus_def)

text \<open>A round in which no query returns a terminal status completes nothing.\<close>

lemma poll_round_never_terminal:
  assumes "\<forall>u r. \<not> query_completed (fst (get_dream c u r))"
  shows "fst (poll_round c pending w) = []"
proof (induction pending arbitrary: w)
  case Nil
  show ?case by simp
next
  case (Cons u us)
  obtain res w1 where g: "c_get_dream c u w = (res, w1)"
    by (cases "c_get_dream c u w")
  then have "res = fst (get_dream c u (remote w))"
    by (auto simp: c_get_dream_def call_def split: prod.splits)
  then have "\<not> query_completed res"
    using assms by simp
  then show ?case
    using g Cons.IH [of w1] by (simp split: prod.splits)
qed

text \<open>A round of queries that take at most \<open>q\<close> each takes at most \<open>q\<close> per pending id.\<close>

lemma poll_round_duration:
  assumes "\<forall>u r. snd (snd (get_dream c u r)) \<le> q"
  shows "clock (snd (poll_round c pending w)) \<le> clock w + length pending * q"
proof (induction pending arbitrary: w)
  case Nil
  show ?case by simp
next
  case (Cons u us)
  obtain res w1 where g: "c_get_dream c u w = (res, w1)"
    by (cases "c_get_dream c u w")
  then have "clock w1 = clock w + snd (snd (get_dream c u (remote w)))"
    by (auto simp: c_get_dream_def call_def split: prod.splits)
  then have "clock w1 \<le> clock w + q"
    using assms by simp
  moreover obtain completed w2 where r: "poll_round c us w1 = (completed, w2)"
    by (cases "poll_round c us w1")
  moreover have "clock w2 \<le> clock w1 + length us * q"
    using Cons.IH [of w1] r by simp
  ultimately show ?case
    using g by simp
qed

lemma poll_loop_never_terminal:
  assumes never: "\<forall>u r. \<not> query_completed (fst (get_dream c u r))"
    and bounded: "\<forall>u r. snd (snd (get_dream c u r)) \<le> q"
    and ne: "pending \<noteq> []"
  shows "clock w < start_time + max_wait + length pending * q + poll_interval \<Longrightarrow>
         fst (poll_loop c start_time max_wait pending w) = pending
         \<and> clock (snd (poll_loop c start_time max_wait pending w))
             < start_time + max_wait + length pending * q + poll_interval
         \<and> max_wait \<le> clock (snd (poll_loop c start_time max_wait pending w)) - start_time
         \<and> clock w \<le> clock (snd (poll_loop c start_time max_wait pending w))"
proof (induction "start_time + max_wait - clock w" arbitrary: w rule: less_induct)
  case less
  show ?case
  proof (cases "clock w - start_time < max_wait")
    case False
    then show ?thesis
      using less.prems ne by (simp add: poll_loop.simps [of c start_time max_wait pending w])
  next
    case True
    obtain completed w1 where r: "poll_round c pending w = (completed, w1)"
      by (cases "poll_round c pending w")
    have "fst (poll_round c pending w) = []"
      by (rule poll_round_never_terminal [OF never])
    then have completed: "completed = []"
      by (simp add: r)
    have "clock (snd (poll_round c pending w)) \<le> clock w + length pending * q"
      by (rule poll_round_duration [OF bounded])
    then have w1: "clock w1 \<le> clock w + length pending * q"
      by (simp add: r)
    have "clock w \<le> clock (snd (poll_round c pending w))"
      by (rule clock_poll_round)
    then have mono: "clock w \<le> clock w1"
      by (simp add: r)
    let ?w2 = "sleep poll_interval w1"
    have unfold: "poll_loop c start_time max_wait pending w
                  = poll_loop c start_time max_wait pending ?w2"
      using True ne r completed
      by (simp add: poll_loop.simps [of c start_time max_wait pending w] set_minus_Nil)
    have c2: "clock ?w2 = clock w1 + poll_interval"
      by (simp add: sleep_def)
    have smaller: "start_time + max_wait - clock ?w2 < start_time + max_wait - clock w"
      using True mono c2 by (simp add: poll_interval_def)
    have bound: "clock ?w2 < start_time + max_wait + length pending * q + poll_interval"
      using True w1 c2 by simp
    from less.hyps [OF smaller bound]
    have "fst (poll_loop c start_time max_wait pending ?w2) = pending
         \<and> clock (snd (poll_loop c start_time max_wait pending ?w2))
             < start_time + max_wait + length pending * q + poll_interval
         \<and> max_wait \<le> clock (snd (poll_loop c start_time max_wait pending ?w2)) - start_time
         \<and> clock ?w2 \<le> clock (snd (poll_loop c start_time max_wait pending ?w2))" .
    then show ?thesis
      using unfold mono c2 by simp
  qed
qed

text \<open>
  Claim C6, as amended. Take ids none of which ever reports a terminal status, and
  status queries that take at most \<open>q\<close> milliseconds each. The poller returns (the
  loop is a total function), with the full original set still pending, once the
  deadline has passed and before deadline + (number of pending ids) * \<open>q\<close> + poll
  interval after it started; it then prints the timeout message and the program goes
  on. With queries that take no time (\<open>q = 0\<close>) this is the bound deadline + poll
  interval. The deadline is only tested between rounds, so the time the queries of
  the last round take comes on top of it.
\<close>

theorem poller_deadline:
  assumes never: "\<forall>u r. \<not> query_completed (fst (get_dream c u r))"
    and bounded: "\<forall>u r. snd (snd (get_dream c u r)) \<le> q"
    and "active \<noteq> []"
  shows "fst (wan_poll c active w) = remdups active
       \<and> clock (snd (wan_poll c active w))
           < clock w + wan_max_wait + length (remdups active) * q + poll_interval
       \<and> clock w + wan_max_wait \<le> clock (snd (wan_poll c active w))
       \<and> last (trace (snd (wan_poll c active w))) = EvPrint timeout_message"
proof -
  have ne: "remdups active \<noteq> []"
    using assms(3) by (cases active) (auto split: if_splits)
  have start: "clock w < clock w + wan_max_wait + length (remdups active) * q + poll_interval"
    by (simp add: poll_interval_def)
  obtain pending' w1 where loop:
    "poll_loop c (clock w) wan_max_wait (remdups active) w = (pending', w1)"
    by (cases "poll_loop c (clock w) wan_max_wait (remdups active) w")
  from poll_loop_never_terminal [OF never bounded ne start] loop
  have facts: "pending' = remdups active"
    "clock w1 < clock w + wan_max_wait + length (remdups active) * q + poll_interval"
    "wan_max_wait \<le> clock w1 - clock w" "clock w \<le> clock w1"
    by simp_all
  have "wan_poll c active w = (pending', print timeout_message w1)"
    using assms(3) loop facts(1) ne by (simp add: wan_poll_def Let_def)
  then show ?thesis
    using facts by (simp add: print_def)
qed

theorem poller_deadline_witness:
  "fst (wan_poll (busy_client 0) [AStr ''job-1'', AStr ''job-2''] (start_world ()))
     = remdups [AStr ''job-1'', AStr ''job-2'']
   \<and> clock (snd (wan_poll (busy_client 0) [AStr ''job-1'', AStr ''job-2''] (start_world ())))
       < clock (start_world ()) + wan_max_wait
         + length (remdups [AStr ''job-1'', AStr ''job-2'']) * 0 + poll_interval
   \<and> clock (start_world ()) + wan_max_wait
       \<le> clock (snd (wan_poll (busy_client 0) [AStr ''job-1'', AStr ''job-2''] (start_world ())))
   \<and> last (trace (snd (wan_poll (busy_client 0) [AStr ''job-1'', AStr ''job-2'']
        (start_world ())))) = EvPrint timeout_message"
proof -
  have never: "\<forall>u r. \<not> query_completed (fst (get_dream (busy_client 0) u r))"
    by (simp add: busy_client_def busy_get_dream_def is_terminal_def dget_def)
  have bounded: "\<forall>u r. snd (snd (get_dream (busy_client 0) u r)) \<le> 0"
    by (simp add: busy_client_def busy_get_dream_def)
  have ne: "[AStr ''job-1'', AStr ''job-2''] \<noteq> []"
    by simp
  show ?thesis
    by (rule poller_deadline [OF never bounded ne])
qed

text \<open>
  When no query returns a terminal status and every query takes exactly \<open>d\<close>, a round
  with its sleep takes \<open>length pending * d + poll_interval\<close>, and the loop is left at
  the start of the first round that begins at or after the deadline.
\<close>

lemma poll_round_exact_duration:
  assumes "\<forall>u r. snd (snd (get_dream c u r)) = d"
  shows "clock (snd (poll_round c pending w)) = clock w + length pending * d"
proof (induction pending arbitrary: w)
  case Nil
  show ?case by simp
next
  case (Cons u us)
  obtain res w1 where g: "c_get_dream c u w = (res, w1)"
    by (cases "c_get_dream c u w")
  then have "clock w1 = clock w + snd (snd (get_dream c u (remote w)))"
    by (auto simp: c_get_dream_def call_def split: prod.splits)
  then have "clock w1 = clock w + d"
    using assms by simp
  moreover obtain completed w2 where r: "poll_round c us w1 = (completed, w2)"
    by (cases "poll_round c us w1")
  moreover have "clock w2 = clock w1 + length us * d"
    using Cons.IH [of w1] r by simp
  ultimately show ?case
    using g by simp
qed

lemma poll_loop_exact:
  assumes never: "\<forall>u r. \<not> query_completed (fst (get_dream c u r))"
    and exact: "\<forall>u r. snd (snd (get_dream c u r)) = d"
    and ne: "pending \<noteq> []"
  shows "start_time \<le> clock w \<Longrightarrow>
         start_time + max_wait \<le> clock w + n * (length pending * d + poll_interval) \<Longrightarrow>
         (\<forall>j<n. clock w + j * (length pending * d + poll_interval) < start_time + max_wait) \<Longrightarrow>
         clock (snd (poll_loop c start_time max_wait pending w))
           = clock w + n * (length pending * d + poll_interval)"
proof (induction n arbitrary: w)
  case 0
  then have "\<not> clock w - start_time < max_wait" by simp
  then show ?case
    by (simp add: poll_loop.simps [of c start_time max_wait pending w])
next
  case (Suc n)
  let ?P = "length pending * d + poll_interval"
  have run: "clock w - start_time < max_wait"
    using Suc.prems(1) Suc.prems(3) [rule_format, of 0] by simp
  obtain completed w1 where r: "poll_round c pending w = (completed, w1)"
    by (cases "poll_round c pending w")
  have "fst (poll_round c pending w) = []"
    by (rule poll_round_never_terminal [OF never])
  then have completed: "completed = []"
    by (simp add: r)
  have "clock (snd (poll_round c pending w)) = clock w + length pending * d"
    by (rule poll_round_exact_duration [OF exact])
  then have w1: "clock w1 = clock w + length pending * d"
    by (simp add: r)
  let ?w2 = "sleep poll_interval w1"
  have c2: "clock ?w2 = clock w + ?P"
    by (simp add: sleep_def w1)
  have unfold: "poll_loop c start_time max_wait pending w
                = poll_loop c start_time max_wait pending ?w2"
    using run ne r completed
    by (simp add: poll_loop.simps [of c start_time max_wait pending w] set_minus_Nil)
  have a: "start_time \<le> clock ?w2"
    using Suc.prems(1) c2 by simp
  have b: "start_time + max_wait \<le> clock ?w2 + n * ?P"
    using Suc.prems(2) c2 by simp
  have c: "\<forall>j<n. clock ?w2 + j * ?P < start_time + max_wait"
  proof (intro allI impI)
    fix j assume "j < n"
    then have "Suc j < Suc n" by simp
    from Suc.prems(3) [rule_format, OF this]
    show "clock ?w2 + j * ?P < start_time + max_wait"
      using c2 by simp
  qed
  have "clock (snd (poll_loop c start_time max_wait pending ?w2)) = clock ?w2 + n * ?P"
    by (rule Suc.IH [OF a b c])
  then show ?case
    using unfold c2 by simp
qed

text \<open>
  Claim C6 as stated fails. One job never finishes and each of its status queries
  takes 27 s. Rounds begin every 37 s; the round that begins 7178 s after the start
  is still before the deadline of 7200 s, and the loop is left when it ends, 7215 s
  after the start: later than deadline + poll interval = 7210 s.
\<close>

theorem poller_deadline_counterexample:
  "fst (wan_poll (busy_client 27000) [AStr ''job-1''] (start_world ())) = [AStr ''job-1'']
   \<and> clock (snd (wan_poll (busy_client 27000) [AStr ''job-1''] (start_world ()))) = 7215000
   \<and> \<not> clock (snd (wan_poll (busy_client 27000) [AStr ''job-1''] (start_world ())))
         \<le> clock (start_world ()) + wan_max_wait + poll_interval"
proof -
  have never: "\<forall>u r. \<not> query_completed (fst (get_dream (busy_client 27000) u r))"
    by (simp add: busy_client_def busy_get_dream_def is_terminal_def dget_def)
  have exact: "\<forall>u r. snd (snd (get_dream (busy_client 27000) u r)) = 27000"
    by (simp add: busy_client_def busy_get_dream_def)
  have bounded: "\<forall>u r. snd (snd (get_dream (busy_client 27000) u r)) \<le> 27000"
    using exact by simp
  have ne: "[AStr ''job-1''] \<noteq> []"
    by simp
  let ?w = "start_world () :: unit world"
  have a: "0 \<le> clock ?w" by simp
  have b: "0 + wan_max_wait \<le> clock ?w + 195 * (length [AStr ''job-1''] * 27000 + poll_interval)"
    by (simp add: start_world_def wan_max_wait_def poll_interval_def)
  have c: "\<forall>j<195. clock ?w + j * (length [AStr ''job-1''] * 27000 + poll_interval)
                     < 0 + wan_max_wait"
    by (simp add: start_world_def wan_max_wait_def poll_interval_def)
  have loop_clock: "clock (snd (poll_loop (busy_client 27000) 0 wan_max_wait [AStr ''job-1''] ?w))
                    = 7215000"
    using poll_loop_exact [OF never exact ne a b c]
    by (simp add: start_world_def poll_interval_def)
  have start: "clock ?w < 0 + wan_max_wait + length [AStr ''job-1''] * 27000 + poll_interval"
    by (simp add: start_world_def poll_interval_def)
  have loop_pending: "fst (poll_loop (busy_client 27000) 0 wan_max_wait [AStr ''job-1''] ?w)
                      = [AStr ''job-1'']"
    using poll_loop_never_terminal [OF never bounded ne start] by simp
  obtain p' w1 where loop:
    "poll_loop (busy_client 27000) 0 wan_max_wait [AStr ''job-1''] ?w = (p', w1)"
    by (cases "poll_loop (busy_client 27000) 0 wan_max_wait [AStr ''job-1''] ?w")
  have p': "p' = [AStr ''job-1'']"
    using loop_pending loop by simp
  have w1: "clock w1 = 7215000"
    using loop_clock loop by simp
  have "wan_poll (busy_client 27000) [AStr ''job-1''] ?w = (p', print timeout_message w1)"
    using loop p' by (simp add: wan_poll_def Let_def start_world_def)
  then show ?thesis
    using p' w1
    by (simp add: print_def start_world_def wan_max_wait_def poll_interval_def)
qed

section \<open>A dedup scan that fails\<close>





























section \<open>Fetching a playlist page by page\<close>

lemma after_calls_simps [simp]:
  "remote (after_calls w evs) = remote w"
  "trace (after_calls w evs) = trace w @ evs"
  "after_calls (after_calls w xs) ys = after_calls w (xs @ ys)"
  by (simp_all add: after_calls_def algebra_simps)

lemma new_events_after_calls: "new_events w (after_calls w evs) = evs"
  by (simp add: new_events_def)

lemma filter_listing_pages:
  "filter is_listing (map (page_call pl coll) ns) = map (page_call pl coll) ns"
  by (induction ns) (simp_all add: is_listing_def page_call_def)

text \<open>A listing call on the reference store, at the offset of page \<open>i\<close>.\<close>

lemma list_call:
  assumes "map_of (s_playlists (remote w)) pl = Some ms"
  shows "c_get_playlist_items ref_client pl page_size (i * page_size) w
         = (Inr \<lparr>pg_items = page_items (listed (remote w) ms) i, pg_totalCount = length ms\<rparr>,
            after_calls w [page_call pl (listed (remote w) ms) i])"
  using assms
  by (simp add: c_get_playlist_items_def call_def ref_client_def ref_get_playlist_items_def
      page_call_def page_items_def listed_def after_calls_def)

text \<open>One turn of the loop, for every client, when the listing call returns a page.\<close>

lemma fetch_pages_step:
  assumes "c_get_playlist_items c pl page_size skip w
           = (Inr \<lparr>pg_items = page, pg_totalCount = cnt\<rparr>, w1)"
  shows "fetch_pages c pl found skip w =
           (if page = [] then Some (found, w1)
            else if cnt \<le> length (found @ dream_entries page) \<or> length page < page_size
                 then Some (found @ dream_entries page, w1)
                 else fetch_pages c pl (found @ dream_entries page) (skip + page_size) w1)"
  by (subst fetch_pages.simps) (simp add: assms Let_def)

lemma dream_entries_append [simp]:
  "dream_entries (xs @ ys) = dream_entries xs @ dream_entries ys"
  by (simp add: dream_entries_def)

lemma length_dream_entries: "length (dream_entries xs) = length (filter is_dream_item xs)"
  by (induction xs) (auto simp: dream_entries_def is_dream_item_def split: option.splits)

lemma length_dream_entries_le: "length (dream_entries xs) \<le> length xs"
  by (simp add: length_dream_entries)

lemma length_filter_all: "length (filter P xs) = length xs \<longleftrightarrow> list_all P xs"
proof (induction xs)
  case Nil
  show ?case by simp
next
  case (Cons x xs)
  have "length (filter P xs) \<le> length xs"
    by (rule length_filter_le)
  then have lt: "length (filter P xs) < Suc (length xs)"
    by (rule le_imp_less_Suc)
  show ?case
  proof (cases "P x")
    case True
    then show ?thesis using Cons by simp
  next
    case False
    then show ?thesis
      using lt by simp
  qed
qed

text \<open>
  The running total \<open>len(all_dreams)\<close> counts the dreams only: it reaches the number of
  items exactly when every item is a dream.
\<close>

lemma all_dreams_iff:
  "length xs \<le> length (dream_entries xs) \<longleftrightarrow> list_all is_dream_item xs"
proof -
  have "length xs \<le> length (filter is_dream_item xs)
        \<longleftrightarrow> length (filter is_dream_item xs) = length xs"
  proof
    assume "length xs \<le> length (filter is_dream_item xs)"
    with length_filter_le [of is_dream_item xs]
    show "length (filter is_dream_item xs) = length xs"
      by (rule le_antisym)
  next
    assume "length (filter is_dream_item xs) = length xs"
    then show "length xs \<le> length (filter is_dream_item xs)"
      by simp
  qed
  then show ?thesis
    by (simp only: length_dream_entries length_filter_all)
qed

lemma take_next_page:
  "take (Suc i * page_size) coll = take (i * page_size) coll @ page_items coll i"
proof -
  have "Suc i * page_size = i * page_size + page_size"
    by simp
  then show ?thesis
    by (simp only: take_add page_items_def)
qed

lemma concat_pages:
  "concat (map (page_items coll) [0..<n]) = take (n * page_size) coll"
proof (induction n)
  case 0
  show ?case by simp
next
  case (Suc n)
  have "concat (map (page_items coll) [0..<Suc n])
        = concat (map (page_items coll) [0..<n]) @ page_items coll n"
    by simp
  also have "\<dots> = take (n * page_size) coll @ page_items coll n"
    by (simp only: Suc.IH)
  also have "\<dots> = take (Suc n * page_size) coll"
    by (simp only: take_next_page)
  finally show ?case .
qed

lemma ceil_between:
  fixes k :: nat
  assumes "i * k < N" and "N < Suc i * k"
  shows "(N + k - 1) div k = Suc i \<and> N mod k \<noteq> 0"
proof
  have k: "0 < k"
    using assms by (cases k) simp_all
  have lo: "k * Suc i \<le> N + k - 1"
    using assms(1) k by (simp add: mult.commute)
  have hi: "N + k - 1 < k * Suc (Suc i)"
    using assms(2) k by (simp add: mult.commute)
  show "(N + k - 1) div k = Suc i"
    by (rule div_nat_eqI [OF lo hi])
  show "N mod k \<noteq> 0"
  proof
    assume "N mod k = 0"
    then have "k dvd N"
      by (simp add: mod_eq_0_iff_dvd)
    then obtain q where q: "N = q * k"
      by (auto simp: dvd_def mult.commute)
    have "i < q"
      using assms(1) k by (simp add: q)
    moreover have "q * k < Suc i * k"
      using assms(2) unfolding q .
    then have "0 < k \<and> q < Suc i"
      by (simp only: mult_less_cancel2)
    then have "q < Suc i" ..
    ultimately show False by simp
  qed
qed

lemma ceil_exact:
  fixes k :: nat
  assumes "0 < k"
  shows "(Suc i * k + k - 1) div k = Suc i \<and> (Suc i * k) mod k = 0"
proof
  have lo: "k * Suc i \<le> Suc i * k + k - 1"
    using assms by (simp add: mult.commute)
  have hi: "Suc i * k + k - 1 < k * Suc (Suc i)"
    using assms by (simp add: mult.commute)
  show "(Suc i * k + k - 1) div k = Suc i"
    by (rule div_nat_eqI [OF lo hi])
  show "(Suc i * k) mod k = 0"
    by simp
qed

lemma ceil_more:
  fixes k :: nat
  assumes "Suc i * k < N" and k: "0 < k"
  shows "Suc i < (N + k - 1) div k"
proof -
  have "Suc (Suc i) * k \<le> N + k - 1"
    using assms by simp
  then have "(Suc (Suc i) * k) div k \<le> (N + k - 1) div k"
    by (rule div_le_mono)
  then show ?thesis
    using k by simp
qed

lemma spec_calls_short:
  "i * page_size < N \<Longrightarrow> N < Suc i * page_size \<Longrightarrow>
   spec_calls N page_size = Suc i \<and> N mod page_size \<noteq> 0"
  unfolding spec_calls_def by (rule ceil_between)

lemma spec_calls_exact:
  "spec_calls (Suc i * page_size) page_size = Suc i \<and> (Suc i * page_size) mod page_size = 0"
  unfolding spec_calls_def by (rule ceil_exact) (simp add: page_size_def)

lemma spec_calls_more:
  "Suc i * page_size < N \<Longrightarrow> Suc i < spec_calls N page_size"
  unfolding spec_calls_def by (rule ceil_more) (simp_all add: page_size_def)

lemma spec_calls_cover: "N \<le> spec_calls N page_size * page_size"
proof -
  let ?m = "N + page_size - 1"
  have "?m div page_size * page_size + ?m mod page_size = ?m"
    by simp
  moreover have "?m mod page_size < page_size"
    by (simp add: page_size_def)
  ultimately have "N \<le> ?m div page_size * page_size"
    by linarith
  then show ?thesis
    by (simp only: spec_calls_def)
qed
text \<open>
  The loop from page \<open>i\<close> on, on the reference store, when page \<open>i\<close> is not empty:
  it makes the calls for the pages \<open>i\<close> to \<open>n - 1\<close> and returns the dreams of the
  whole collection. The number \<open>n\<close> of calls is \<open>ceil(N / 100)\<close>, and one more when
  \<open>N\<close> is a multiple of 100 and not every item is a dream: then the running total
  of dreams has not reached \<open>totalCount\<close> after the last full page, and the loop asks
  for the page after it, which is empty.
\<close>

lemma fetch_pages_from:
  assumes pl: "map_of (s_playlists (remote w)) pl = Some ms"
    and coll: "coll = listed (remote w) ms"
    and n: "n = spec_calls (length coll) page_size
                + (if length coll mod page_size = 0 \<and> \<not> list_all is_dream_item coll
                   then 1 else 0)"
  shows "i * page_size < length coll \<Longrightarrow>
         fetch_pages ref_client pl (dream_entries (take (i * page_size) coll)) (i * page_size)
           (after_calls w evs)
         = Some (dream_entries coll, after_calls w (evs @ map (page_call pl coll) [i..<n]))"
proof (induction "length coll - i * page_size" arbitrary: i evs rule: less_induct)
  case less
  let ?w = "after_calls w evs"
  let ?w1 = "after_calls w (evs @ [page_call pl coll i])"
  let ?found = "dream_entries (take (i * page_size) coll)"
  let ?found1 = "dream_entries (take (Suc i * page_size) coll)"
  have len: "length ms = length coll"
    by (simp add: coll listed_def)
  have pl': "map_of (s_playlists (remote ?w)) pl = Some ms"
    using pl by simp
  have call: "c_get_playlist_items ref_client pl page_size (i * page_size) ?w
              = (Inr \<lparr>pg_items = page_items coll i, pg_totalCount = length coll\<rparr>, ?w1)"
    using list_call [OF pl', of i] by (simp add: coll len [unfolded coll])
  have ne: "page_items coll i \<noteq> []"
    using less.prems by (simp add: page_items_def page_size_def)
  have found1: "?found @ dream_entries (page_items coll i) = ?found1"
    by (simp only: take_next_page dream_entries_append)
  have sk: "i * page_size + page_size = Suc i * page_size"
    by simp
  have lp: "length (page_items coll i) < page_size \<longleftrightarrow> length coll < Suc i * page_size"
    using less.prems by (auto simp: page_items_def)
  have step: "fetch_pages ref_client pl ?found (i * page_size) ?w
              = (if length coll \<le> length ?found1 \<or> length coll < Suc i * page_size
                 then Some (?found1, ?w1)
                 else fetch_pages ref_client pl ?found1 (Suc i * page_size) ?w1)"
    unfolding fetch_pages_step [OF call, of ?found] found1 sk lp
    using ne by (simp only: if_False)
  consider (short) "length coll < Suc i * page_size"
    | (exact) "length coll = Suc i * page_size"
    | (more) "Suc i * page_size < length coll"
    by linarith
  then show ?case
  proof cases
    case short
    have all: "take (Suc i * page_size) coll = coll"
      using short by simp
    from spec_calls_short [OF less.prems short] have "n = Suc i"
      by (simp add: n)
    then have "[i..<n] = [i]"
      by simp
    moreover note step [unfolded all]
    ultimately show ?thesis
      using short by simp
  next
    case exact
    have all: "take (Suc i * page_size) coll = coll"
      using exact by simp
    from spec_calls_exact [of i] have sc: "spec_calls (length coll) page_size = Suc i"
      "length coll mod page_size = 0"
      by (simp_all only: exact)
    show ?thesis
    proof (cases "list_all is_dream_item coll")
      case True
      then have "n = Suc i"
        by (simp add: n sc)
      then have "[i..<n] = [i]"
        by simp
      moreover have "length coll \<le> length (dream_entries coll)"
        using True by (simp add: all_dreams_iff)
      moreover note step [unfolded all]
      ultimately show ?thesis
        by simp
    next
      case False
      then have "n = Suc (Suc i)"
        by (simp add: n sc)
      then have upt: "[i..<n] = [i, Suc i]"
        by (simp add: upt_rec)
      have "\<not> length coll \<le> length (dream_entries coll)"
        using False by (simp add: all_dreams_iff)
      then have go: "fetch_pages ref_client pl ?found (i * page_size) ?w
                     = fetch_pages ref_client pl (dream_entries coll) (Suc i * page_size) ?w1"
        using exact step [unfolded all] by simp
      let ?w2 = "after_calls w (evs @ [page_call pl coll i, page_call pl coll (Suc i)])"
      have pl1: "map_of (s_playlists (remote ?w1)) pl = Some ms"
        using pl by simp
      have call1: "c_get_playlist_items ref_client pl page_size (Suc i * page_size) ?w1
                   = (Inr \<lparr>pg_items = page_items coll (Suc i),
                            pg_totalCount = length coll\<rparr>, ?w2)"
        using list_call [OF pl1, of "Suc i"] by (simp add: coll len [unfolded coll])
      have empty: "page_items coll (Suc i) = []"
        using exact by (simp add: page_items_def)
      have "fetch_pages ref_client pl (dream_entries coll) (Suc i * page_size) ?w1
            = Some (dream_entries coll, ?w2)"
        unfolding fetch_pages_step [OF call1, of "dream_entries coll"]
        using empty by simp
      then show ?thesis
        by (simp add: go upt)
    qed
  next
    case more
    have "length ?found1 \<le> length (take (Suc i * page_size) coll)"
      by (rule length_dream_entries_le)
    also have "\<dots> < length coll"
      using more by simp
    finally have "\<not> length coll \<le> length ?found1"
      by simp
    then have go: "fetch_pages ref_client pl ?found (i * page_size) ?w
                   = fetch_pages ref_client pl ?found1 (Suc i * page_size) ?w1"
      using more by (simp only: step) simp
    have smaller: "length coll - Suc i * page_size < length coll - i * page_size"
      using more by (simp add: page_size_def)
    note ih = less.hyps [OF smaller more, of "evs @ [page_call pl coll i]"]
    have "Suc i < n"
      using spec_calls_more [OF more] by (simp add: n)
    then have upt: "[i..<n] = i # [Suc i..<n]"
      by (simp add: upt_conv_Cons)
    show ?thesis
      by (simp only: go ih upt list.map append_assoc append_Cons append_Nil)
  qed
qed

text \<open>The pages of the calls made cover the collection, each item once and in order.\<close>

lemma pages_cover:
  assumes "spec_calls (length coll) page_size \<le> n"
  shows "concat (map (page_items coll) [0..<n]) = coll"
proof -
  have "length coll \<le> spec_calls (length coll) page_size * page_size"
    by (rule spec_calls_cover)
  also have "\<dots> \<le> n * page_size"
    using assms by simp
  finally show ?thesis
    by (simp add: concat_pages)
qed

text \<open>The whole scan of a playlist of the reference store that is not empty.\<close>

lemma get_all_on_store:
  assumes pl: "map_of (s_playlists (remote w)) pl = Some ms" and ne: "ms \<noteq> []"
  shows "get_all_playlist_dreams ref_client pl w
         = Some (dream_entries (listed (remote w) ms),
                 after_calls w (map (page_call pl (listed (remote w) ms))
                   [0..<spec_calls (length ms) page_size
                        + (if length ms mod page_size = 0
                              \<and> \<not> list_all is_dream_item (listed (remote w) ms)
                           then 1 else 0)]))"
proof -
  let ?coll = "listed (remote w) ms"
  have len: "length ?coll = length ms"
    by (simp add: listed_def)
  have w: "after_calls w [] = w"
    by (simp add: after_calls_def)
  have de: "dream_entries [] = []"
    by (simp add: dream_entries_def)
  have "0 * page_size < length ?coll"
    using ne by (simp add: len)
  from fetch_pages_from [OF pl refl refl this, of "[]"]
  show ?thesis
    by (simp only: get_all_playlist_dreams_def mult_0 take_0 de w len append_Nil)
qed

text \<open>
  Claim C3, as amended. Take a playlist of the reference store (offset-based listing
  that reports the number \<open>N\<close> of its items as \<open>totalCount\<close>) with more items than the
  page size of 100. The scan returns (the loop ends), having made the listing calls
  for the offsets 0, 100, 200, ... and nothing else: \<open>ceil(N / 100)\<close> calls, and one
  more call, answered by an empty page, when \<open>N\<close> is a multiple of 100 and some item
  is not a dream with a dream object. The pages of these calls put end to end are the
  collection: every item is seen exactly once. The result holds the dreams of the
  collection, once each and in order.
\<close>

theorem pagination_completeness:
  assumes "map_of (s_playlists (remote w)) pl = Some ms" and "page_size < length ms"
  defines "coll \<equiv> listed (remote w) ms"
  defines "n \<equiv> spec_calls (length ms) page_size
               + (if length ms mod page_size = 0 \<and> \<not> list_all is_dream_item coll
                  then 1 else 0)"
  shows "get_all_playlist_dreams ref_client pl w
           = Some (dream_entries coll, after_calls w (map (page_call pl coll) [0..<n]))
       \<and> new_events w (after_calls w (map (page_call pl coll) [0..<n]))
           = map (page_call pl coll) [0..<n]
       \<and> concat (map (page_items coll) [0..<n]) = coll"
proof -
  have ne: "ms \<noteq> []"
    using assms(2) by auto
  have len: "length coll = length ms"
    by (simp add: coll_def listed_def)
  have "spec_calls (length coll) page_size \<le> n"
    by (simp add: n_def len)
  then have cover: "concat (map (page_items coll) [0..<n]) = coll"
    by (rule pages_cover)
  have run: "get_all_playlist_dreams ref_client pl w
           = Some (dream_entries coll, after_calls w (map (page_call pl coll) [0..<n]))"
    unfolding coll_def n_def by (rule get_all_on_store [OF assms(1) ne])
  show ?thesis
    using run cover by (simp only: new_events_after_calls simp_thms)
qed

theorem pagination_completeness_witness:
  "get_all_playlist_dreams ref_client (AStr ''pl'') (start_world store_150)
     = Some (dream_entries (listed store_150 (replicate 150 (MItem a_dream_item))),
             after_calls (start_world store_150)
               (map (page_call (AStr ''pl'')
                      (listed store_150 (replicate 150 (MItem a_dream_item)))) [0..<2]))
   \<and> concat (map (page_items (listed store_150 (replicate 150 (MItem a_dream_item))))
        [0..<2])
      = listed store_150 (replicate 150 (MItem a_dream_item))
   \<and> spec_calls 150 page_size = 2"
proof -
  have r: "remote (start_world store_150) = store_150"
    by (simp add: start_world_def)
  have h1: "map_of (s_playlists (remote (start_world store_150))) (AStr ''pl'')
            = Some (replicate 150 (MItem a_dream_item))"
    by (simp add: start_world_def store_150_def)
  have h2: "page_size < length (replicate 150 (MItem a_dream_item))"
    by (simp add: page_size_def)
  have n: "spec_calls (length (replicate 150 (MItem a_dream_item))) page_size
             + (if length (replicate 150 (MItem a_dream_item)) mod page_size = 0
                   \<and> \<not> list_all is_dream_item
                         (listed store_150 (replicate 150 (MItem a_dream_item)))
                then 1 else 0) = 2"
    by (simp add: spec_calls_def page_size_def)
  have s: "spec_calls 150 page_size = 2"
    by (simp add: spec_calls_def page_size_def)
  from pagination_completeness [OF h1 h2]
  show ?thesis
    by (simp only: n r s simp_thms)
qed

text \<open>
  Claim C3 as stated fails on the number of calls. The playlist holds 200 items, the
  last of which is a nested playlist and not a dream. After the second page the
  running total of dreams is 199, less than the \<open>totalCount\<close> of 200, and the page
  was full: the loop makes a third call, at offset 200, which returns no item. Three
  calls, where \<open>ceil(200 / 100)\<close> is two.
\<close>

theorem pagination_call_count_counterexample:
  "page_size < length (replicate 199 (MItem a_dream_item) @ [MItem a_playlist_item])
   \<and> map_option (\<lambda>r. length (filter is_listing (new_events (start_world store_200) (snd r))))
        (get_all_playlist_dreams ref_client (AStr ''pl'') (start_world store_200))
      = Some 3
   \<and> spec_calls (length (replicate 199 (MItem a_dream_item) @ [MItem a_playlist_item]))
        page_size = 2"
proof -
  let ?ms = "replicate 199 (MItem a_dream_item) @ [MItem a_playlist_item]"
  let ?w = "start_world store_200"
  have r: "remote ?w = store_200"
    by (simp add: start_world_def)
  have h1: "map_of (s_playlists (remote ?w)) (AStr ''pl'') = Some ?ms"
    by (simp add: start_world_def store_200_def)
  have h2: "?ms \<noteq> []"
    by simp
  have k: "page_size < length ?ms"
    by (simp add: page_size_def)
  have s: "spec_calls (length ?ms) page_size = 2"
    by (simp add: spec_calls_def page_size_def)
  have nd: "\<not> list_all is_dream_item (listed (remote ?w) ?ms)"
    by (simp add: listed_def member_item_def a_playlist_item_def is_dream_item_def)
  have n: "spec_calls (length ?ms) page_size
             + (if length ?ms mod page_size = 0
                   \<and> \<not> list_all is_dream_item (listed (remote ?w) ?ms)
                then 1 else 0) = 3"
    using nd by (simp add: spec_calls_def page_size_def)
  have run: "get_all_playlist_dreams ref_client (AStr ''pl'') ?w
             = Some (dream_entries (listed (remote ?w) ?ms),
                     after_calls ?w (map (page_call (AStr ''pl'') (listed (remote ?w) ?ms))
                       [0..<3]))"
    using get_all_on_store [OF h1 h2] by (simp only: n)
  have "map_option (\<lambda>r. length (filter is_listing (new_events ?w (snd r))))
          (get_all_playlist_dreams ref_client (AStr ''pl'') ?w) = Some 3"
    by (simp add: run new_events_after_calls filter_listing_pages)
  then show ?thesis
    using k s by simp
qed

end
